theory Spec2Isabelle
  imports Complex_Main "HOL-Library.AList" "HOL-Library.Char_ord" "HOL-Library.List_Lexorder"
begin

section \<open>The heredity inference engine (\<^verbatim>\<open>2. heredity/heredity.py\<close>)\<close>

text \<open>
  The theory embeds the functions of \<^verbatim>\<open>heredity.py\<close> one by one.  Conventions:
  \<^item> Python floats are exact reals here: every statement below is about the arithmetic the
    program describes, not about double-precision rounding.
  \<^item> A Python exception is a value \<open>Inl e\<close>; a normal return is \<open>Inr v\<close>.
  \<^item> A dictionary that is iterated is an association list in insertion order (its keys are
    distinct); a dictionary that is only indexed is a map.
  \<^item> A Python \<^verbatim>\<open>set\<close> of names is a HOL set.  Where the program iterates a set
    (\<^verbatim>\<open>list(s)\<close> in \<^verbatim>\<open>powerset\<close>) the model lists it in sorted order; Python leaves that
    order unspecified, and the results below use only that the listing is duplicate free and
    has the elements of the set.
\<close>

subsection \<open>Errors and dictionary access\<close>

text \<open>
  \<open>KeyError\<close>, \<open>UnboundLocalError\<close> and \<open>ZeroDivisionError\<close> are the exceptions the Python
  operations of the program can raise.  \<open>MalformedPedigreeError\<close> and
  \<open>DegenerateEvidenceError\<close> are the names of the specification's error taxonomy; no function
  of the program constructs them.
\<close>

datatype error =
    KeyError
  | UnboundLocalError
  | ZeroDivisionError
  | MalformedPedigreeError
  | DegenerateEvidenceError

text \<open>Sequencing of two steps: the exception of the first step is propagated.\<close>

definition and_then :: "error + 'a \<Rightarrow> ('a \<Rightarrow> error + 'b) \<Rightarrow> error + 'b" where
  "and_then m f = (case m of Inl e \<Rightarrow> Inl e | Inr v \<Rightarrow> f v)"

text \<open>\<^verbatim>\<open>d[k]\<close>: a missing key raises \<open>KeyError\<close>.\<close>

definition getitem :: "('k \<rightharpoonup> 'v) \<Rightarrow> 'k \<Rightarrow> error + 'v" where
  "getitem d k = (case d k of None \<Rightarrow> Inl KeyError | Some v \<Rightarrow> Inr v)"

text \<open>A \<^verbatim>\<open>for\<close> loop whose body updates a state and may raise.\<close>

fun for_each :: "('a \<Rightarrow> 's \<Rightarrow> error + 's) \<Rightarrow> 'a list \<Rightarrow> 's \<Rightarrow> error + 's" where
  "for_each body [] s = Inr s"
| "for_each body (x # xs) s = and_then (body x s) (for_each body xs)"

subsection \<open>The table \<^verbatim>\<open>PROBS\<close>\<close>

text \<open>
  The functions read the module-level dictionary \<^verbatim>\<open>PROBS\<close>; in the model they take it as
  their first argument, and \<open>PROBS\<close> is the table of the source.
\<close>

record probs =
  probs_gene :: "nat \<rightharpoonup> real"
  probs_trait :: "nat \<rightharpoonup> (bool \<rightharpoonup> real)"
  probs_mutation :: real

definition PROBS :: probs where
  "PROBS =
    \<lparr>probs_gene = [2 \<mapsto> 0.01, 1 \<mapsto> 0.03, 0 \<mapsto> 0.96],
     probs_trait =
       [2 \<mapsto> [True \<mapsto> 0.65, False \<mapsto> 0.35],
        1 \<mapsto> [True \<mapsto> 0.56, False \<mapsto> 0.44],
        0 \<mapsto> [True \<mapsto> 0.01, False \<mapsto> 0.99]],
     probs_mutation = 0.01\<rparr>"

subsection \<open>People\<close>

text \<open>
  One entry of the dictionary \<^verbatim>\<open>people\<close>: \<^verbatim>\<open>{"name", "mother", "father", "trait"}\<close>, where
  \<^verbatim>\<open>None\<close> is \<open>None\<close>.
\<close>

record person =
  name :: string
  mother :: "string option"
  father :: "string option"
  trait :: "bool option"

type_synonym people = "(string \<times> person) list"

text \<open>Python truth value of a parent field: \<^verbatim>\<open>None\<close> and the empty string are false.\<close>

fun truthy :: "string option \<Rightarrow> bool" where
  "truthy None = False"
| "truthy (Some s) = (s \<noteq> [])"

subsection \<open>\<^verbatim>\<open>load_data\<close>\<close>

text \<open>
  A row of \<^verbatim>\<open>csv.DictReader\<close> is a dictionary from column names to the fields' text.
  Opening the file and splitting lines into fields is outside the model; rows are taken to be
  as long as the header.
\<close>

type_synonym csv_row = "string \<rightharpoonup> string"

fun load_data_loop :: "csv_row list \<Rightarrow> people \<Rightarrow> error + people" where
  "load_data_loop [] data = Inr data"
| "load_data_loop (row # rows) data =
     and_then (getitem row ''name'') (\<lambda>name'.
     and_then (getitem row ''mother'') (\<lambda>m.
     and_then (getitem row ''father'') (\<lambda>f.
     and_then (getitem row ''trait'') (\<lambda>t.
       load_data_loop rows
         (AList.update name'
            \<lparr>name = name',
             mother = (if m = [] then None else Some m),
             father = (if f = [] then None else Some f),
             trait = (if t = ''1'' then Some True else if t = ''0'' then Some False else None)\<rparr>
            data)))))"

definition load_data :: "csv_row list \<Rightarrow> error + people" where
  "load_data rows = load_data_loop rows []"

subsection \<open>\<^verbatim>\<open>powerset\<close>\<close>

text \<open>
  \<^verbatim>\<open>itertools.combinations(s, r)\<close>: the subsequences of length \<open>r\<close>, those that start with the
  first element first.
\<close>

fun combinations :: "'a list \<Rightarrow> nat \<Rightarrow> 'a list list" where
  "combinations xs 0 = [[]]"
| "combinations [] (Suc r) = []"
| "combinations (x # xs) (Suc r) = map ((#) x) (combinations xs r) @ combinations xs (Suc r)"

definition powerset :: "'a::linorder set \<Rightarrow> 'a set list" where
  "powerset s =
     (let s = sorted_list_of_set s
      in map set (concat (map (combinations s) [0..<length s + 1])))"

subsection \<open>Gene counts and the transmission model\<close>

definition get_number_of_genes_by_name :: "string \<Rightarrow> string set \<Rightarrow> string set \<Rightarrow> nat" where
  "get_number_of_genes_by_name person' one_gene two_genes =
     (if person' \<in> two_genes then 2 else if person' \<in> one_gene then 1 else 0)"

text \<open>
  The \<^verbatim>\<open>match\<close> statements have the cases 2, 1 and 0 only; for any other value the local
  variable stays unbound and the \<^verbatim>\<open>return\<close> raises \<open>UnboundLocalError\<close>.
\<close>

definition calculate_probability_of_passing_gene_to_child :: "probs \<Rightarrow> nat \<Rightarrow> error + real" where
  "calculate_probability_of_passing_gene_to_child P number_of_parent_genes =
     (if number_of_parent_genes = 2 then Inr (1 - probs_mutation P)
      else if number_of_parent_genes = 1 then Inr 0.5
      else if number_of_parent_genes = 0 then Inr (probs_mutation P)
      else Inl UnboundLocalError)"

definition calculate_child_gene_probability :: "probs \<Rightarrow> nat \<Rightarrow> nat \<Rightarrow> nat \<Rightarrow> error + real" where
  "calculate_child_gene_probability P mother_genes father_genes child_number_of_genes =
     and_then (calculate_probability_of_passing_gene_to_child P mother_genes)
       (\<lambda>probability_of_mothers_gene.
     and_then (calculate_probability_of_passing_gene_to_child P father_genes)
       (\<lambda>probability_of_fathers_gene.
        if child_number_of_genes = 2
        then Inr (probability_of_mothers_gene * probability_of_fathers_gene)
        else if child_number_of_genes = 1
        then Inr (probability_of_mothers_gene * (1 - probability_of_fathers_gene) +
                  probability_of_fathers_gene * (1 - probability_of_mothers_gene))
        else if child_number_of_genes = 0
        then Inr ((1 - probability_of_mothers_gene) * (1 - probability_of_fathers_gene))
        else Inl UnboundLocalError))"

subsection \<open>\<^verbatim>\<open>joint_probability\<close>\<close>

text \<open>
  The body of the loop over \<^verbatim>\<open>people.items()\<close>: the factor \<^verbatim>\<open>probability_for_person\<close> of one
  person.  The test \<^verbatim>\<open>data["mother"] and data["father"]\<close> holds when both fields are
  non-empty strings.
\<close>

definition probability_for_person ::
  "probs \<Rightarrow> string \<Rightarrow> person \<Rightarrow> string set \<Rightarrow> string set \<Rightarrow> string set \<Rightarrow> error + real" where
  "probability_for_person P name' data one_gene two_genes have_trait =
     (let number_of_genes = get_number_of_genes_by_name name' one_gene two_genes in
      and_then
        (case (mother data, father data) of
           (Some m, Some f) \<Rightarrow>
             if m \<noteq> [] \<and> f \<noteq> []
             then calculate_child_gene_probability P
                    (get_number_of_genes_by_name m one_gene two_genes)
                    (get_number_of_genes_by_name f one_gene two_genes)
                    number_of_genes
             else getitem (probs_gene P) number_of_genes
         | _ \<Rightarrow> getitem (probs_gene P) number_of_genes)
        (\<lambda>gene_probability.
      and_then (getitem (probs_trait P) number_of_genes) (\<lambda>trait_row.
      and_then (getitem trait_row (name' \<in> have_trait)) (\<lambda>trait_probability.
        Inr (gene_probability * trait_probability)))))"

fun joint_probability_loop ::
  "probs \<Rightarrow> people \<Rightarrow> string set \<Rightarrow> string set \<Rightarrow> string set \<Rightarrow> real \<Rightarrow> error + real" where
  "joint_probability_loop P [] one_gene two_genes have_trait result_probability =
     Inr result_probability"
| "joint_probability_loop P ((name', data) # rest) one_gene two_genes have_trait result_probability =
     and_then (probability_for_person P name' data one_gene two_genes have_trait)
       (\<lambda>probability_for_person'.
          joint_probability_loop P rest one_gene two_genes have_trait
            (result_probability * probability_for_person'))"

definition joint_probability ::
  "probs \<Rightarrow> people \<Rightarrow> string set \<Rightarrow> string set \<Rightarrow> string set \<Rightarrow> error + real" where
  "joint_probability P people one_gene two_genes have_trait =
     joint_probability_loop P people one_gene two_genes have_trait 1"

subsection \<open>\<^verbatim>\<open>update\<close> and \<^verbatim>\<open>normalize\<close>\<close>

text \<open>One entry of \<^verbatim>\<open>probabilities\<close>: the dictionaries under \<^verbatim>\<open>"gene"\<close> and \<^verbatim>\<open>"trait"\<close>.\<close>

record dist =
  dist_gene :: "nat \<rightharpoonup> real"
  dist_trait :: "bool \<rightharpoonup> real"

type_synonym probabilities = "(string \<times> dist) list"

fun update ::
  "probabilities \<Rightarrow> string set \<Rightarrow> string set \<Rightarrow> string set \<Rightarrow> real \<Rightarrow> error + probabilities" where
  "update [] one_gene two_genes have_trait p = Inr []"
| "update ((person', d) # rest) one_gene two_genes have_trait p =
     (let number_of_genes = get_number_of_genes_by_name person' one_gene two_genes in
      and_then (getitem (dist_gene d) number_of_genes) (\<lambda>g.
      and_then (getitem (dist_trait d) (person' \<in> have_trait)) (\<lambda>t.
      and_then (update rest one_gene two_genes have_trait p) (\<lambda>rest'.
        Inr ((person',
              \<lparr>dist_gene = (dist_gene d)(number_of_genes \<mapsto> g + p),
               dist_trait = (dist_trait d)((person' \<in> have_trait) \<mapsto> t + p)\<rparr>) # rest')))))"

text \<open>
  \<^verbatim>\<open>1 / (...)\<close> raises \<open>ZeroDivisionError\<close> when the sum is zero.  The loop
  \<^verbatim>\<open>for i in range(3)\<close> rescales the keys 0, 1 and 2.
\<close>

fun normalize :: "probabilities \<Rightarrow> error + probabilities" where
  "normalize [] = Inr []"
| "normalize ((person', d) # rest) =
     and_then (getitem (dist_gene d) 2) (\<lambda>g2.
     and_then (getitem (dist_gene d) 1) (\<lambda>g1.
     and_then (getitem (dist_gene d) 0) (\<lambda>g0.
       if g2 + g1 + g0 = 0 then Inl ZeroDivisionError
       else
         (let gene_alpha = 1 / (g2 + g1 + g0) in
          and_then (getitem (dist_trait d) True) (\<lambda>t1.
          and_then (getitem (dist_trait d) False) (\<lambda>t0.
            if t1 + t0 = 0 then Inl ZeroDivisionError
            else
              (let trait_alpha = 1 / (t1 + t0) in
               and_then (normalize rest) (\<lambda>rest'.
                 Inr ((person',
                       \<lparr>dist_gene = (dist_gene d)
                          (0 \<mapsto> g0 * gene_alpha, 1 \<mapsto> g1 * gene_alpha, 2 \<mapsto> g2 * gene_alpha),
                        dist_trait = (dist_trait d)
                          (True \<mapsto> t1 * trait_alpha, False \<mapsto> t0 * trait_alpha)\<rparr>)
                      # rest')))))))))"

subsection \<open>\<^verbatim>\<open>main\<close>\<close>

definition initial_probabilities :: "people \<Rightarrow> probabilities" where
  "initial_probabilities people =
     map (\<lambda>(person', data).
            (person', \<lparr>dist_gene = [2 \<mapsto> 0, 1 \<mapsto> 0, 0 \<mapsto> 0],
                       dist_trait = [True \<mapsto> 0, False \<mapsto> 0]\<rparr>)) people"

text \<open>
  \<^verbatim>\<open>fails_evidence\<close>.  Every name of \<^verbatim>\<open>names\<close> is a key of \<^verbatim>\<open>people\<close>, so the lookup
  \<^verbatim>\<open>people[person]\<close> finds an entry.
\<close>

definition fails_evidence :: "people \<Rightarrow> string set \<Rightarrow> string set \<Rightarrow> bool" where
  "fails_evidence people names have_trait =
     (\<exists>person' \<in> names.
        case map_of people person' of
          None \<Rightarrow> False
        | Some data \<Rightarrow> trait data \<noteq> None \<and> trait data \<noteq> Some (person' \<in> have_trait))"

text \<open>The three nested loops of \<^verbatim>\<open>main\<close>, from \<^verbatim>\<open>probabilities\<close> to the accumulated table.\<close>

definition accumulate :: "probs \<Rightarrow> people \<Rightarrow> probabilities \<Rightarrow> error + probabilities" where
  "accumulate P people probabilities =
     (let names = set (map fst people) in
      for_each (\<lambda>have_trait probabilities.
        if fails_evidence people names have_trait then Inr probabilities
        else
          for_each (\<lambda>one_gene probabilities.
            for_each (\<lambda>two_genes probabilities.
              and_then (joint_probability P people one_gene two_genes have_trait) (\<lambda>p.
                update probabilities one_gene two_genes have_trait p))
              (powerset (names - one_gene)) probabilities)
            (powerset names) probabilities)
        (powerset names) probabilities)"

text \<open>\<^verbatim>\<open>main\<close> up to the printing: the normalized table.\<close>

definition main :: "probs \<Rightarrow> people \<Rightarrow> error + probabilities" where
  "main P people =
     and_then (accumulate P people (initial_probabilities people)) normalize"

section \<open>The model in closed form\<close>

text \<open>
  The numbers of \<open>PROBS\<close> as total functions of a gene count, and the value that
  \<^verbatim>\<open>joint_probability\<close> multiplies in for one person under \<open>PROBS\<close> (mutation rate 0.01),
  with the branch of the source on \<^verbatim>\<open>data["mother"] and data["father"]\<close>.  The lemmas
  \<open>probability_for_person_PROBS\<close> and \<open>joint_probability_PROBS\<close> below prove that the functions
  of the program return these values.
\<close>

definition unconditional_prior :: "nat \<Rightarrow> real" where
  "unconditional_prior n = (if n = 0 then 0.96 else if n = 1 then 0.03 else 0.01)"

definition trait_given_genes :: "nat \<Rightarrow> bool \<Rightarrow> real" where
  "trait_given_genes n b =
     (if n = 2 then (if b then 0.65 else 0.35)
      else if n = 1 then (if b then 0.56 else 0.44)
      else (if b then 0.01 else 0.99))"

text \<open>
  The gene-transmission model in the specification's words.  A parent with gene count \<open>n\<close>
  passes the gene on with probability \<open>transmission m n\<close>.  The two parents transmit
  independently; \<open>child_count_probability pm pf c\<close> adds up the outcomes in which exactly \<open>c\<close>
  of the two parents transmit.
\<close>

definition transmission :: "real \<Rightarrow> nat \<Rightarrow> real" where
  "transmission m n = (if n = 2 then 1 - m else if n = 1 then 0.5 else m)"

definition transmits :: "real \<Rightarrow> bool \<Rightarrow> real" where
  "transmits p b = (if b then p else 1 - p)"

definition child_count_probability :: "real \<Rightarrow> real \<Rightarrow> nat \<Rightarrow> real" where
  "child_count_probability pm pf c =
     (\<Sum>a\<in>UNIV. \<Sum>b\<in>UNIV.
        if (if a then 1 else 0) + (if b then 1 else 0) = c
        then transmits pm a * transmits pf b else 0)"

definition gene_factor :: "string set \<Rightarrow> string set \<Rightarrow> person \<Rightarrow> nat \<Rightarrow> real" where
  "gene_factor one_gene two_genes data n =
     (case (mother data, father data) of
        (Some m, Some f) \<Rightarrow>
          if m \<noteq> [] \<and> f \<noteq> []
          then child_count_probability
                 (transmission 0.01 (get_number_of_genes_by_name m one_gene two_genes))
                 (transmission 0.01 (get_number_of_genes_by_name f one_gene two_genes)) n
          else unconditional_prior n
      | _ \<Rightarrow> unconditional_prior n)"

definition person_factor ::
  "string set \<Rightarrow> string set \<Rightarrow> string set \<Rightarrow> string \<Rightarrow> person \<Rightarrow> real" where
  "person_factor one_gene two_genes have_trait k data =
     gene_factor one_gene two_genes data (get_number_of_genes_by_name k one_gene two_genes) *
     trait_given_genes (get_number_of_genes_by_name k one_gene two_genes) (k \<in> have_trait)"

subsection \<open>The joint probability as the specification states it\<close>

text \<open>
  An assignment gives every person the count 1 when the person is in the one-gene set, 2 when in
  the two-gene set and 0 otherwise.  A person has no recorded parents when neither parent field
  holds a name.
\<close>

definition gene_count :: "string set \<Rightarrow> string set \<Rightarrow> string \<Rightarrow> nat" where
  "gene_count one_gene two_genes k =
     (if k \<in> one_gene then 1 else if k \<in> two_genes then 2 else 0)"

definition no_recorded_parents :: "person \<Rightarrow> bool" where
  "no_recorded_parents data = (\<not> truthy (mother data) \<and> \<not> truthy (father data))"

definition gene_count_probability ::
  "string set \<Rightarrow> string set \<Rightarrow> person \<Rightarrow> nat \<Rightarrow> real" where
  "gene_count_probability one_gene two_genes data n =
     (if no_recorded_parents data then unconditional_prior n
      else child_count_probability
             (transmission 0.01 (gene_count one_gene two_genes (the (mother data))))
             (transmission 0.01 (gene_count one_gene two_genes (the (father data)))) n)"

definition assignment_probability ::
  "people \<Rightarrow> string set \<Rightarrow> string set \<Rightarrow> string set \<Rightarrow> real" where
  "assignment_probability people one_gene two_genes have_trait =
     (\<Prod>(k, data)\<leftarrow>people.
        gene_count_probability one_gene two_genes data (gene_count one_gene two_genes k) *
        trait_given_genes (gene_count one_gene two_genes k) (k \<in> have_trait))"

subsection \<open>Example pedigrees\<close>

definition harry_family :: people where
  "harry_family =
     [(''Harry'', \<lparr>name = ''Harry'', mother = Some ''Lily'', father = Some ''James'', trait = None\<rparr>),
      (''James'', \<lparr>name = ''James'', mother = None, father = None, trait = Some True\<rparr>),
      (''Lily'', \<lparr>name = ''Lily'', mother = None, father = None, trait = Some False\<rparr>)]"

subsection \<open>Tables of totals\<close>

text \<open>
  An entry of \<^verbatim>\<open>probabilities\<close> has the keys 0, 1, 2 under \<^verbatim>\<open>"gene"\<close> and \<open>True\<close>, \<open>False\<close>
  under \<^verbatim>\<open>"trait"\<close>; \<open>gene_total\<close> and \<open>trait_total\<close> read a total, \<open>gene_sum\<close> and
  \<open>trait_sum\<close> are the sums \<^verbatim>\<open>normalize\<close> divides by, and \<open>rescale\<close> is the entry after the
  two rescalings.
\<close>

definition has_keys :: "dist \<Rightarrow> bool" where
  "has_keys d = ({0, 1, 2} \<subseteq> dom (dist_gene d) \<and> {True, False} \<subseteq> dom (dist_trait d))"

definition gene_total :: "dist \<Rightarrow> nat \<Rightarrow> real" where
  "gene_total d n = (case dist_gene d n of Some v \<Rightarrow> v | None \<Rightarrow> 0)"

definition trait_total :: "dist \<Rightarrow> bool \<Rightarrow> real" where
  "trait_total d b = (case dist_trait d b of Some v \<Rightarrow> v | None \<Rightarrow> 0)"

definition gene_sum :: "dist \<Rightarrow> real" where
  "gene_sum d = gene_total d 2 + gene_total d 1 + gene_total d 0"

definition trait_sum :: "dist \<Rightarrow> real" where
  "trait_sum d = trait_total d True + trait_total d False"

definition rescale :: "dist \<Rightarrow> dist" where
  "rescale d =
     \<lparr>dist_gene = (dist_gene d)
        (0 \<mapsto> gene_total d 0 * (1 / gene_sum d),
         1 \<mapsto> gene_total d 1 * (1 / gene_sum d),
         2 \<mapsto> gene_total d 2 * (1 / gene_sum d)),
      dist_trait = (dist_trait d)
        (True \<mapsto> trait_total d True * (1 / trait_sum d),
         False \<mapsto> trait_total d False * (1 / trait_sum d))\<rparr>"

text \<open>
  What the specification asks of a normalized entry \<open>d'\<close> of an entry \<open>d\<close>: both distributions
  sum to 1 and every value is the unnormalized value divided by the sum of its group.
\<close>

definition normalized :: "dist \<Rightarrow> dist \<Rightarrow> bool" where
  "normalized d d' =
     (has_keys d' \<and> gene_sum d' = 1 \<and> trait_sum d' = 1 \<and>
      (\<forall>n\<in>{0, 1, 2}. gene_total d' n = gene_total d n / gene_sum d) \<and>
      (\<forall>b. trait_total d' b = trait_total d b / trait_sum d))"

definition sample_table :: probabilities where
  "sample_table =
     [(''A'', \<lparr>dist_gene = [2 \<mapsto> 1, 1 \<mapsto> 1, 0 \<mapsto> 2], dist_trait = [True \<mapsto> 3, False \<mapsto> 1]\<rparr>),
      (''B'', \<lparr>dist_gene = [2 \<mapsto> 0, 1 \<mapsto> 0, 0 \<mapsto> 5], dist_trait = [True \<mapsto> 0, False \<mapsto> 5]\<rparr>)]"

subsection \<open>Rows and the people loaded from them\<close>

text \<open>
  \<open>has_columns\<close>: the row has the four columns \<^verbatim>\<open>load_data\<close> reads.  \<open>person_of_row\<close> is the
  dictionary \<^verbatim>\<open>load_data\<close> builds from a row: the parent fields as written, a blank field as
  \<open>None\<close>.  \<open>loaded rows data\<close> says what the dictionary \<open>data\<close> is after the rows were
  read: its keys are the names of the rows in the order of their first occurrence, and a name
  looks up the person of the last row of that name.
\<close>

definition has_columns :: "csv_row \<Rightarrow> bool" where
  "has_columns row = ({''name'', ''mother'', ''father'', ''trait''} \<subseteq> dom row)"

definition field :: "csv_row \<Rightarrow> string \<Rightarrow> string" where
  "field row column = (case row column of Some s \<Rightarrow> s | None \<Rightarrow> [])"

definition person_of_row :: "csv_row \<Rightarrow> person" where
  "person_of_row row =
     \<lparr>name = field row ''name'',
      mother = (if field row ''mother'' = [] then None else Some (field row ''mother'')),
      father = (if field row ''father'' = [] then None else Some (field row ''father'')),
      trait = (if field row ''trait'' = ''1'' then Some True
               else if field row ''trait'' = ''0'' then Some False else None)\<rparr>"

definition first_occurrences :: "'a list \<Rightarrow> 'a list" where
  "first_occurrences xs = rev (remdups (rev xs))"

definition loaded :: "csv_row list \<Rightarrow> people \<Rightarrow> bool" where
  "loaded rows data =
     (map fst data = first_occurrences (map (\<lambda>row. field row ''name'') rows) \<and>
      map_of data = map_of (rev (map (\<lambda>row. (field row ''name'', person_of_row row)) rows)))"

definition orphan_rows :: "csv_row list" where
  "orphan_rows =
     [[''name'' \<mapsto> ''Harry'', ''mother'' \<mapsto> ''Lily'', ''father'' \<mapsto> ''James'', ''trait'' \<mapsto> ''''],
      [''name'' \<mapsto> ''Ron'', ''mother'' \<mapsto> ''Molly'', ''father'' \<mapsto> '''', ''trait'' \<mapsto> ''1'']]"

subsection \<open>The enumeration of \<^verbatim>\<open>main\<close> as a list\<close>

text \<open>
  An assignment is the triple \<open>(one_gene, two_genes, have_trait)\<close> of one pass through the
  innermost loop body.  \<open>enumeration\<close> lists the triples in the order in which the three loops
  of \<^verbatim>\<open>main\<close> reach the body; \<open>accumulate_step\<close> is that body.
\<close>

type_synonym assignment = "string set \<times> string set \<times> string set"

definition enumeration :: "people \<Rightarrow> assignment list" where
  "enumeration people =
     (let names = set (map fst people) in
      concat (map (\<lambda>have_trait.
        if fails_evidence people names have_trait then []
        else concat (map (\<lambda>one_gene.
               map (\<lambda>two_genes. (one_gene, two_genes, have_trait))
                 (powerset (names - one_gene)))
             (powerset names)))
        (powerset names)))"

definition accumulate_step ::
  "probs \<Rightarrow> people \<Rightarrow> assignment \<Rightarrow> probabilities \<Rightarrow> error + probabilities" where
  "accumulate_step P people a probabilities =
     (case a of (one_gene, two_genes, have_trait) \<Rightarrow>
        and_then (joint_probability P people one_gene two_genes have_trait) (\<lambda>p.
          update probabilities one_gene two_genes have_trait p))"

text \<open>
  The gene count and the trait value an assignment gives a person, and the value
  \<^verbatim>\<open>joint_probability\<close> returns for it under \<open>PROBS\<close>.
\<close>

definition assigned_genes :: "assignment \<Rightarrow> string \<Rightarrow> nat" where
  "assigned_genes a k = (case a of (one_gene, two_genes, have_trait) \<Rightarrow>
     get_number_of_genes_by_name k one_gene two_genes)"

definition assigned_trait :: "assignment \<Rightarrow> string \<Rightarrow> bool" where
  "assigned_trait a k = (case a of (one_gene, two_genes, have_trait) \<Rightarrow> k \<in> have_trait)"

definition joint_value :: "people \<Rightarrow> assignment \<Rightarrow> real" where
  "joint_value people a = (case a of (one_gene, two_genes, have_trait) \<Rightarrow>
     (\<Prod>(k, data)\<leftarrow>people. person_factor one_gene two_genes have_trait k data))"

text \<open>
  \<open>bump\<close> is the effect of \<^verbatim>\<open>update\<close> on one entry, \<open>tally\<close> the entry of person \<open>k\<close> after
  the updates of a list of assignments, \<open>zero_dist\<close> the initial entry.
\<close>

definition bump :: "dist \<Rightarrow> nat \<Rightarrow> bool \<Rightarrow> real \<Rightarrow> dist" where
  "bump d n b p =
     \<lparr>dist_gene = (dist_gene d)(n \<mapsto> gene_total d n + p),
      dist_trait = (dist_trait d)(b \<mapsto> trait_total d b + p)\<rparr>"

fun tally :: "people \<Rightarrow> assignment list \<Rightarrow> string \<Rightarrow> dist \<Rightarrow> dist" where
  "tally people [] k d = d"
| "tally people (a # as) k d =
     tally people as k (bump d (assigned_genes a k) (assigned_trait a k) (joint_value people a))"

definition zero_dist :: dist where
  "zero_dist =
     \<lparr>dist_gene = [2 \<mapsto> 0, 1 \<mapsto> 0, 0 \<mapsto> 0], dist_trait = [True \<mapsto> 0, False \<mapsto> 0]\<rparr>"

text \<open>
  The assignments consistent with the evidence, in the specification's words: the one-gene
  and two-gene sets are disjoint sets of persons, the have-trait set is a set of persons, and
  a person whose trait is observed is in the have-trait set exactly when the observation is
  true.
\<close>

definition respects_evidence :: "people \<Rightarrow> string set \<Rightarrow> bool" where
  "respects_evidence people have_trait =
     (\<forall>(k, data)\<in>set people. \<forall>b. trait data = Some b \<longrightarrow> (k \<in> have_trait) = b)"

definition consistent_assignments :: "people \<Rightarrow> assignment set" where
  "consistent_assignments people =
     {(one_gene, two_genes, have_trait).
        one_gene \<subseteq> fst ` set people \<and> two_genes \<subseteq> fst ` set people \<and>
        one_gene \<inter> two_genes = {} \<and> have_trait \<subseteq> fst ` set people \<and>
        respects_evidence people have_trait}"

text \<open>The sum of the joint probabilities of all enumerated assignments.\<close>

definition total_mass :: "people \<Rightarrow> real" where
  "total_mass people = (\<Sum>a\<leftarrow>enumeration people. joint_value people a)"

subsection \<open>Pedigrees without cycles\<close>

text \<open>
  \<open>parent_rel\<close> relates a person to each of the two parents \<^verbatim>\<open>joint_probability\<close> looks up
  for the person (both parent fields hold a name).  A pedigree is a directed acyclic graph when
  this relation is acyclic: nobody is their own ancestor.
\<close>

definition parent_rel :: "people \<Rightarrow> (string \<times> string) set" where
  "parent_rel people =
     {(c, p). \<exists>data m f. (c, data) \<in> set people \<and> mother data = Some m \<and> father data = Some f \<and>
        m \<noteq> [] \<and> f \<noteq> [] \<and> (p = m \<or> p = f)}"

text \<open>
  For the sums over gene assignments: \<open>gene_weight\<close> is the gene factor of the person with
  key \<open>k\<close>, \<open>gsum L F\<close> adds \<open>F\<close> over the pairs of a one-gene set and a two-gene set drawn from
  the remaining persons of \<open>L\<close>, as the two inner loops of \<^verbatim>\<open>main\<close> do, and \<open>root_weight\<close> is
  the product of the gene factors over \<open>L\<close> for the pairs that give \<open>x\<close> the count \<open>c\<close>.
\<close>

definition gene_weight :: "people \<Rightarrow> string set \<Rightarrow> string set \<Rightarrow> string \<Rightarrow> real" where
  "gene_weight people one_gene two_genes k =
     (case map_of people k of
        None \<Rightarrow> 1
      | Some data \<Rightarrow>
          gene_factor one_gene two_genes data (get_number_of_genes_by_name k one_gene two_genes))"

definition gsum :: "string set \<Rightarrow> (string set \<Rightarrow> string set \<Rightarrow> real) \<Rightarrow> real" where
  "gsum L F = (\<Sum>one_gene\<in>Pow L. \<Sum>two_genes\<in>Pow (L - one_gene). F one_gene two_genes)"

definition root_weight ::
  "people \<Rightarrow> string \<Rightarrow> nat \<Rightarrow> string set \<Rightarrow> string set \<Rightarrow> string set \<Rightarrow> real" where
  "root_weight people x c L one_gene two_genes =
     (if get_number_of_genes_by_name x one_gene two_genes = c
      then \<Prod>k\<in>L. gene_weight people one_gene two_genes k else 0)"

text \<open>A family of three without any observed trait.\<close>

definition potter_family :: people where
  "potter_family =
     [(''Harry'', \<lparr>name = ''Harry'', mother = Some ''Lily'', father = Some ''James'', trait = None\<rparr>),
      (''James'', \<lparr>name = ''James'', mother = None, father = None, trait = None\<rparr>),
      (''Lily'', \<lparr>name = ''Lily'', mother = None, father = None, trait = None\<rparr>)]"

section \<open>Properties\<close>

subsection \<open>Sequencing\<close>

lemma and_then_Inr [simp]: "and_then (Inr v) f = f v"
  by (simp add: and_then_def)

lemma and_then_Inl [simp]: "and_then (Inl e) f = Inl e"
  by (simp add: and_then_def)

subsection \<open>The transmission model\<close>

lemma child_count_probability_simps:
  "child_count_probability pm pf 2 = pm * pf"
  "child_count_probability pm pf 1 = pm * (1 - pf) + pf * (1 - pm)"
  "child_count_probability pm pf (Suc 0) = pm * (1 - pf) + pf * (1 - pm)"
  "child_count_probability pm pf 0 = (1 - pm) * (1 - pf)"
  by (simp_all add: child_count_probability_def transmits_def UNIV_bool)

lemma passing_cases:
  "n \<le> 2 \<Longrightarrow>
   calculate_probability_of_passing_gene_to_child P n = Inr (transmission (probs_mutation P) n)"
  by (auto simp: calculate_probability_of_passing_gene_to_child_def transmission_def)

lemma child_cases:
  assumes "mg \<le> 2" "fg \<le> 2" "c \<le> 2"
  shows "calculate_child_gene_probability P mg fg c =
         Inr (child_count_probability (transmission (probs_mutation P) mg)
                (transmission (probs_mutation P) fg) c)"
proof -
  from assms(3) consider "c = 0" | "c = 1" | "c = 2" by linarith
  then show ?thesis
    by cases (simp_all add: calculate_child_gene_probability_def passing_cases assms
        child_count_probability_simps)
qed

text \<open>
  \<^bold>\<open>C3.\<close>  For every mutation rate (the entry \<open>probs_mutation P\<close> of whatever table is in
  force) and all parent gene counts in 0..2: a parent with two copies passes the gene on with
  probability \<open>1 - m\<close>, with one copy with probability 0.5, with none with probability \<open>m\<close>;
  and the probability of the child's count \<open>c\<close> is that of the outcomes in which exactly \<open>c\<close>
  of the two independent parents transmit (both for 2, exactly one for 1, neither for 0).
\<close>

theorem transmission_model:
  assumes "mg \<le> 2" and "fg \<le> 2" and "c \<le> 2"
  shows "calculate_probability_of_passing_gene_to_child P 2 = Inr (1 - probs_mutation P) \<and>
         calculate_probability_of_passing_gene_to_child P 1 = Inr 0.5 \<and>
         calculate_probability_of_passing_gene_to_child P 0 = Inr (probs_mutation P) \<and>
         calculate_child_gene_probability P mg fg c =
           Inr (child_count_probability (transmission (probs_mutation P) mg)
                  (transmission (probs_mutation P) fg) c) \<and>
         child_count_probability pm pf 2 = pm * pf \<and>
         child_count_probability pm pf 1 = pm * (1 - pf) + pf * (1 - pm) \<and>
         child_count_probability pm pf 0 = (1 - pm) * (1 - pf)"
  using child_cases[OF assms, of P]
  by (simp add: calculate_probability_of_passing_gene_to_child_def child_count_probability_simps)

theorem transmission_model_witness:
  "calculate_probability_of_passing_gene_to_child PROBS 2 = Inr 0.99 \<and>
   calculate_probability_of_passing_gene_to_child PROBS 0 = Inr 0.01 \<and>
   calculate_child_gene_probability PROBS 2 0 1 = Inr 0.9802"
  using transmission_model[of 2 0 1 PROBS]
  by (simp add: PROBS_def transmission_def)

subsection \<open>The joint probability\<close>

lemma get_number_le2: "get_number_of_genes_by_name k one_gene two_genes \<le> 2"
  by (simp add: get_number_of_genes_by_name_def)

lemma PROBS_gene: "n \<le> 2 \<Longrightarrow> getitem (probs_gene PROBS) n = Inr (unconditional_prior n)"
  by (auto simp: PROBS_def getitem_def unconditional_prior_def)

lemma PROBS_trait:
  "n \<le> 2 \<Longrightarrow>
   and_then (getitem (probs_trait PROBS) n) (\<lambda>row. and_then (getitem row b) f) =
   f (trait_given_genes n b)"
  by (cases b) (auto simp: PROBS_def getitem_def trait_given_genes_def and_then_def)

lemma PROBS_mutation: "probs_mutation PROBS = 0.01"
  by (simp add: PROBS_def)

lemma gene_probability_PROBS:
  "n \<le> 2 \<Longrightarrow>
   (case (mother data, father data) of
      (Some m, Some f) \<Rightarrow>
        if m \<noteq> [] \<and> f \<noteq> []
        then calculate_child_gene_probability PROBS
               (get_number_of_genes_by_name m one_gene two_genes)
               (get_number_of_genes_by_name f one_gene two_genes) n
        else getitem (probs_gene PROBS) n
    | _ \<Rightarrow> getitem (probs_gene PROBS) n) = Inr (gene_factor one_gene two_genes data n)"
  by (simp add: gene_factor_def PROBS_gene get_number_le2 child_cases PROBS_mutation
      split: option.splits)

lemma probability_for_person_PROBS:
  "probability_for_person PROBS k data one_gene two_genes have_trait =
   Inr (person_factor one_gene two_genes have_trait k data)"
  unfolding probability_for_person_def person_factor_def Let_def
  by (simp only: gene_probability_PROBS get_number_le2 and_then_Inr PROBS_trait)

lemma joint_probability_loop_PROBS:
  "joint_probability_loop PROBS people one_gene two_genes have_trait acc =
   Inr (acc * (\<Prod>(k, data)\<leftarrow>people. person_factor one_gene two_genes have_trait k data))"
  by (induction people arbitrary: acc)
    (auto simp: probability_for_person_PROBS mult.assoc)

lemma joint_probability_PROBS:
  "joint_probability PROBS people one_gene two_genes have_trait =
   Inr (\<Prod>(k, data)\<leftarrow>people. person_factor one_gene two_genes have_trait k data)"
  by (simp add: joint_probability_def joint_probability_loop_PROBS)

lemma gene_count_disjoint:
  "one_gene \<inter> two_genes = {} \<Longrightarrow>
   gene_count one_gene two_genes k = get_number_of_genes_by_name k one_gene two_genes"
  by (auto simp: gene_count_def get_number_of_genes_by_name_def)

lemma gene_factor_both_or_none:
  assumes "one_gene \<inter> two_genes = {}" "truthy (mother data) = truthy (father data)"
  shows "gene_factor one_gene two_genes data n = gene_count_probability one_gene two_genes data n"
  using assms
  by (cases "mother data"; cases "father data")
    (auto simp: gene_factor_def gene_count_probability_def no_recorded_parents_def
      gene_count_disjoint)

lemma gene_factor_single_parent:
  assumes "truthy (mother data) \<noteq> truthy (father data)"
  shows "gene_factor one_gene two_genes data n = unconditional_prior n"
  using assms
  by (cases "mother data"; cases "father data") (auto simp: gene_factor_def)

lemma gene_factor_no_parents:
  "gene_factor one_gene two_genes (data\<lparr>mother := None, father := None\<rparr>) n =
   unconditional_prior n"
  by (simp add: gene_factor_def)

text \<open>
  \<^bold>\<open>C1.\<close>  For every assignment (a one-gene set, a two-gene set disjoint from it, a
  have-trait set) over a pedigree in which every person has both parents recorded or none,
  \<^verbatim>\<open>joint_probability\<close> returns the product over all persons of the probability of the
  person's assigned gene count (the unconditional prior 0.96/0.03/0.01 when the person has no
  recorded parents, otherwise the value the transmission model derives from both parents'
  assigned counts) times the probability of the person's assigned trait value given that count.
\<close>

theorem joint_probability_is_product:
  assumes "one_gene \<inter> two_genes = {}"
    and "\<forall>(k, data)\<in>set people. truthy (mother data) = truthy (father data)"
  shows "joint_probability PROBS people one_gene two_genes have_trait =
         Inr (assignment_probability people one_gene two_genes have_trait)"
proof -
  have "map (\<lambda>(k, data). person_factor one_gene two_genes have_trait k data) people =
        map (\<lambda>(k, data).
               gene_count_probability one_gene two_genes data (gene_count one_gene two_genes k) *
               trait_given_genes (gene_count one_gene two_genes k) (k \<in> have_trait)) people"
    using assms
    by (intro map_cong refl)
      (auto simp: person_factor_def gene_factor_both_or_none gene_count_disjoint)
  then show ?thesis
    unfolding joint_probability_PROBS assignment_probability_def by (simp only:)
qed

theorem joint_probability_is_product_witness:
  "joint_probability PROBS harry_family {''Harry''} {''James''} {''James''} =
     Inr (assignment_probability harry_family {''Harry''} {''James''} {''James''}) \<and>
   assignment_probability harry_family {''Harry''} {''James''} {''James''} = 0.0026643247488"
proof -
  have d: "{''Harry''} \<inter> {''James''} = ({} :: string set)" by simp
  have p: "\<forall>(k, data)\<in>set harry_family. truthy (mother data) = truthy (father data)"
    by (simp add: harry_family_def)
  have v: "assignment_probability harry_family {''Harry''} {''James''} {''James''} =
           0.0026643247488"
    by (simp add: assignment_probability_def harry_family_def gene_count_probability_def
        no_recorded_parents_def gene_count_def unconditional_prior_def trait_given_genes_def
        transmission_def child_count_probability_simps)
  show ?thesis
    using joint_probability_is_product[OF d p, of "{''James''}"] v by simp
qed

text \<open>
  \<^bold>\<open>C10.\<close>  For a person with exactly one of mother and father recorded, and every
  assignment: \<^verbatim>\<open>joint_probability\<close> raises no error, and the value it returns is the
  product of the other persons' factors with the unconditional prior of the person's own count
  times the person's trait probability; it is the value returned when both parent fields of the
  person are empty.  The recorded parent's gene count does not enter.
\<close>

theorem single_parent_uses_prior:
  assumes "truthy (mother data) \<noteq> truthy (father data)"
  shows "probability_for_person PROBS k data one_gene two_genes have_trait =
           Inr (unconditional_prior (get_number_of_genes_by_name k one_gene two_genes) *
                trait_given_genes (get_number_of_genes_by_name k one_gene two_genes)
                  (k \<in> have_trait)) \<and>
         (\<exists>pb pa.
            joint_probability PROBS before one_gene two_genes have_trait = Inr pb \<and>
            joint_probability PROBS after one_gene two_genes have_trait = Inr pa \<and>
            joint_probability PROBS (before @ (k, data) # after) one_gene two_genes have_trait =
              Inr (pb *
                   (unconditional_prior (get_number_of_genes_by_name k one_gene two_genes) *
                    trait_given_genes (get_number_of_genes_by_name k one_gene two_genes)
                      (k \<in> have_trait)) * pa) \<and>
            joint_probability PROBS
              (before @ (k, data\<lparr>mother := None, father := None\<rparr>) # after)
              one_gene two_genes have_trait =
              Inr (pb *
                   (unconditional_prior (get_number_of_genes_by_name k one_gene two_genes) *
                    trait_given_genes (get_number_of_genes_by_name k one_gene two_genes)
                      (k \<in> have_trait)) * pa))"
  by (simp add: probability_for_person_PROBS joint_probability_PROBS person_factor_def
      gene_factor_single_parent[OF assms] gene_factor_no_parents)

theorem single_parent_uses_prior_witness:
  "joint_probability PROBS
     [(''M'', \<lparr>name = ''M'', mother = None, father = None, trait = None\<rparr>),
      (''C'', \<lparr>name = ''C'', mother = Some ''M'', father = None, trait = None\<rparr>)]
     {''C''} {''M''} {} = Inr (0.0035 * (0.03 * 0.44) * 1) \<and>
   joint_probability PROBS
     [(''M'', \<lparr>name = ''M'', mother = None, father = None, trait = None\<rparr>),
      (''C'', \<lparr>name = ''C'', mother = None, father = None, trait = None\<rparr>)]
     {''C''} {''M''} {} = Inr (0.0035 * (0.03 * 0.44) * 1)"
proof -
  have s: "truthy (mother \<lparr>name = ''C'', mother = Some ''M'', father = None, trait = None\<rparr>) \<noteq>
           truthy (father \<lparr>name = ''C'', mother = Some ''M'', father = None, trait = None\<rparr>)"
    by simp
  have b: "joint_probability PROBS
             [(''M'', \<lparr>name = ''M'', mother = None, father = None, trait = None\<rparr>)]
             {''C''} {''M''} {} = Inr 0.0035"
    by (simp add: joint_probability_PROBS person_factor_def gene_factor_def
        get_number_of_genes_by_name_def unconditional_prior_def trait_given_genes_def)
  have a: "joint_probability PROBS [] {''C''} {''M''} {} = Inr 1"
    by (simp add: joint_probability_def)
  from single_parent_uses_prior[OF s, of "''C''" "{''C''}" "{''M''}" "{}"
      "[(''M'', \<lparr>name = ''M'', mother = None, father = None, trait = None\<rparr>)]" "[]"]
  obtain pb pa where
    1: "joint_probability PROBS
          [(''M'', \<lparr>name = ''M'', mother = None, father = None, trait = None\<rparr>)]
          {''C''} {''M''} {} = Inr pb"
    and 2: "joint_probability PROBS [] {''C''} {''M''} {} = Inr pa"
    and 3: "joint_probability PROBS
          ([(''M'', \<lparr>name = ''M'', mother = None, father = None, trait = None\<rparr>)] @
           (''C'', \<lparr>name = ''C'', mother = Some ''M'', father = None, trait = None\<rparr>) # [])
          {''C''} {''M''} {} =
          Inr (pb * (unconditional_prior (get_number_of_genes_by_name ''C'' {''C''} {''M''}) *
                     trait_given_genes (get_number_of_genes_by_name ''C'' {''C''} {''M''})
                       (''C'' \<in> {})) * pa)"
    and 4: "joint_probability PROBS
          ([(''M'', \<lparr>name = ''M'', mother = None, father = None, trait = None\<rparr>)] @
           (''C'', \<lparr>name = ''C'', mother = Some ''M'', father = None, trait = None\<rparr>
                     \<lparr>mother := None, father := None\<rparr>) # [])
          {''C''} {''M''} {} =
          Inr (pb * (unconditional_prior (get_number_of_genes_by_name ''C'' {''C''} {''M''}) *
                     trait_given_genes (get_number_of_genes_by_name ''C'' {''C''} {''M''})
                       (''C'' \<in> {})) * pa)"
    by blast
  from 1 b have pb: "pb = 0.0035" by simp
  from 2 a have pa: "pa = 1" by simp
  have v: "unconditional_prior (get_number_of_genes_by_name ''C'' {''C''} {''M''}) *
           trait_given_genes (get_number_of_genes_by_name ''C'' {''C''} {''M''}) (''C'' \<in> {}) =
           0.03 * 0.44"
    by (simp add: get_number_of_genes_by_name_def unconditional_prior_def trait_given_genes_def)
  from 3 4 show ?thesis unfolding pb pa v by simp
qed

subsection \<open>\<^verbatim>\<open>normalize\<close>\<close>

lemma has_keys_getitem:
  assumes "has_keys d"
  shows "getitem (dist_gene d) 0 = Inr (gene_total d 0)"
    "getitem (dist_gene d) 1 = Inr (gene_total d 1)"
    "getitem (dist_gene d) (Suc 0) = Inr (gene_total d 1)"
    "getitem (dist_gene d) 2 = Inr (gene_total d 2)"
    "getitem (dist_trait d) b = Inr (trait_total d b)"
  using assms
  by (cases b; auto simp: has_keys_def getitem_def gene_total_def trait_total_def)+

lemma normalize_Cons:
  assumes "has_keys d"
  shows "normalize ((k, d) # rest) =
         (if gene_sum d = 0 \<or> trait_sum d = 0 then Inl ZeroDivisionError
          else and_then (normalize rest) (\<lambda>rest'. Inr ((k, rescale d) # rest')))"
  by (simp add: has_keys_getitem[OF assms] gene_sum_def trait_sum_def rescale_def Let_def)

lemma normalize_ok:
  assumes "\<forall>(k, d)\<in>set table. has_keys d \<and> gene_sum d \<noteq> 0 \<and> trait_sum d \<noteq> 0"
  shows "normalize table = Inr (map (\<lambda>(k, d). (k, rescale d)) table)"
  using assms by (induction table) (auto simp: normalize_Cons simp del: normalize.simps(2))

lemma normalize_zero:
  assumes "\<forall>(k, d)\<in>set table. has_keys d"
    and "\<exists>(k, d)\<in>set table. gene_sum d = 0 \<or> trait_sum d = 0"
  shows "normalize table = Inl ZeroDivisionError"
  using assms
proof (induction table)
  case Nil
  then show ?case by simp
next
  case (Cons e table)
  obtain k d where e: "e = (k, d)" by (cases e)
  show ?case
  proof (cases "gene_sum d = 0 \<or> trait_sum d = 0")
    case True
    then show ?thesis
      using Cons.prems(1) by (simp add: e normalize_Cons del: normalize.simps(2))
  next
    case False
    with Cons.prems e have "\<exists>(k, d)\<in>set table. gene_sum d = 0 \<or> trait_sum d = 0"
      by auto
    with Cons.IH Cons.prems(1) have "normalize table = Inl ZeroDivisionError" by simp
    with False Cons.prems(1) show ?thesis
      by (simp add: e normalize_Cons del: normalize.simps(2))
  qed
qed

lemma rescale_totals:
  "gene_total (rescale d) 0 = gene_total d 0 / gene_sum d"
  "gene_total (rescale d) 1 = gene_total d 1 / gene_sum d"
  "gene_total (rescale d) (Suc 0) = gene_total d 1 / gene_sum d"
  "gene_total (rescale d) 2 = gene_total d 2 / gene_sum d"
  "trait_total (rescale d) b = trait_total d b / trait_sum d"
  by (cases b; simp add: rescale_def gene_total_def trait_total_def)+

lemma rescale_normalized:
  assumes "has_keys d" "gene_sum d \<noteq> 0" "trait_sum d \<noteq> 0"
  shows "normalized d (rescale d)"
proof -
  have gs: "gene_sum (rescale d) = 1"
    using assms(2) unfolding gene_sum_def[of "rescale d"] rescale_totals
    by (simp add: gene_sum_def add_divide_distrib[symmetric])
  have ts: "trait_sum (rescale d) = 1"
    using assms(3) unfolding trait_sum_def[of "rescale d"] rescale_totals
    by (simp add: trait_sum_def add_divide_distrib[symmetric])
  have k: "has_keys (rescale d)"
    using assms(1) by (auto simp: has_keys_def rescale_def)
  show ?thesis
    unfolding normalized_def using rescale_totals gs ts k by simp
qed

text \<open>
  \<^bold>\<open>C4.\<close>  For every table whose entries have the three gene-count totals and the two trait
  totals, each group with a nonzero sum, \<^verbatim>\<open>normalize\<close> returns a table with the same keys in
  which, person by person, the gene-count distribution sums to 1, the trait distribution sums
  to 1, and every value is the unnormalized value divided by the sum of its group.
\<close>

theorem normalize_sums_to_one:
  assumes "\<forall>(k, d)\<in>set table. has_keys d \<and> gene_sum d \<noteq> 0 \<and> trait_sum d \<noteq> 0"
  shows "\<exists>table'. normalize table = Inr table' \<and>
           list_all2 (\<lambda>(k, d) (k', d'). k' = k \<and> normalized d d') table table'"
proof -
  have "list_all2 (\<lambda>(k, d) (k', d'). k' = k \<and> normalized d d') table
          (map (\<lambda>(k, d). (k, rescale d)) table)"
    using assms by (induction table) (auto simp: rescale_normalized)
  with normalize_ok[OF assms] show ?thesis by blast
qed

theorem normalize_sums_to_one_witness:
  "\<exists>table'. normalize sample_table = Inr table' \<and>
     list_all2 (\<lambda>(k, d) (k', d'). k' = k \<and> normalized d d') sample_table table'"
proof -
  have "\<forall>(k, d)\<in>set sample_table. has_keys d \<and> gene_sum d \<noteq> 0 \<and> trait_sum d \<noteq> 0"
    by (simp add: sample_table_def has_keys_def gene_sum_def trait_sum_def gene_total_def
        trait_total_def)
  from normalize_sums_to_one[OF this] show ?thesis .
qed

text \<open>
  \<^bold>\<open>C7\<close> (as the program has it).  If some person's three gene-count totals, or two trait
  totals, sum to zero, \<^verbatim>\<open>normalize\<close> raises Python's \<open>ZeroDivisionError\<close> from the division
  \<^verbatim>\<open>1 / (...)\<close>; it returns no table.  The program defines no \<open>DegenerateEvidenceError\<close>.
\<close>

theorem normalize_zero_total:
  assumes "\<forall>(k, d)\<in>set table. has_keys d"
    and "\<exists>(k, d)\<in>set table. gene_sum d = 0 \<or> trait_sum d = 0"
  shows "normalize table = Inl ZeroDivisionError"
  using assms by (rule normalize_zero)

theorem normalize_zero_total_witness:
  "normalize (initial_probabilities harry_family) = Inl ZeroDivisionError"
proof -
  have 1: "\<forall>(k, d)\<in>set (initial_probabilities harry_family). has_keys d"
    by (simp add: initial_probabilities_def harry_family_def has_keys_def)
  have 2: "\<exists>(k, d)\<in>set (initial_probabilities harry_family). gene_sum d = 0 \<or> trait_sum d = 0"
    by (simp add: initial_probabilities_def harry_family_def gene_sum_def gene_total_def)
  from normalize_zero_total[OF 1 2] show ?thesis .
qed

text \<open>
  The specification names the error \<open>DegenerateEvidenceError\<close>.  On a one-person table of
  zero totals the error is \<open>ZeroDivisionError\<close>.
\<close>

theorem normalize_zero_total_counterexample:
  "gene_sum \<lparr>dist_gene = [2 \<mapsto> 0, 1 \<mapsto> 0, 0 \<mapsto> 0], dist_trait = [True \<mapsto> 0, False \<mapsto> 0]\<rparr> = 0 \<and>
   normalize [(''A'', \<lparr>dist_gene = [2 \<mapsto> 0, 1 \<mapsto> 0, 0 \<mapsto> 0], dist_trait = [True \<mapsto> 0, False \<mapsto> 0]\<rparr>)]
     = Inl ZeroDivisionError \<and>
   normalize [(''A'', \<lparr>dist_gene = [2 \<mapsto> 0, 1 \<mapsto> 0, 0 \<mapsto> 0], dist_trait = [True \<mapsto> 0, False \<mapsto> 0]\<rparr>)]
     \<noteq> Inl DegenerateEvidenceError"
  by (simp add: gene_sum_def gene_total_def getitem_def)

subsection \<open>\<^verbatim>\<open>load_data\<close>\<close>

lemma getitem_Some: "d k = Some v \<Longrightarrow> getitem d k = Inr v"
  by (simp add: getitem_def)

lemma getitem_cases: "getitem d k = Inl KeyError \<or> (\<exists>v. getitem d k = Inr v)"
  by (cases "d k") (simp_all add: getitem_def)

lemma load_data_loop_not_malformed:
  "load_data_loop rows data \<noteq> Inl MalformedPedigreeError"
proof (induction rows arbitrary: data)
  case Nil
  then show ?case by simp
next
  case (Cons row rows)
  show ?case
    using getitem_cases[of row "''name''"] getitem_cases[of row "''mother''"]
      getitem_cases[of row "''father''"] getitem_cases[of row "''trait''"] Cons.IH
    by (auto simp: and_then_def)
qed

lemma load_data_loop_step:
  assumes "has_columns row"
  shows "load_data_loop (row # rows) data =
         load_data_loop rows (AList.update (field row ''name'') (person_of_row row) data)"
proof -
  from assms obtain n m f t where
    row: "row ''name'' = Some n" "row ''mother'' = Some m" "row ''father'' = Some f"
      "row ''trait'' = Some t"
    by (auto simp: has_columns_def dom_def)
  show ?thesis
    by (simp add: getitem_def row field_def person_of_row_def)
qed

lemma load_data_loop_fold:
  assumes "\<forall>row\<in>set rows. has_columns row"
  shows "load_data_loop rows data =
         Inr (fold (\<lambda>row. AList.update (field row ''name'') (person_of_row row)) rows data)"
  using assms
proof (induction rows arbitrary: data)
  case Nil
  show ?case by simp
next
  case (Cons row rows)
  then show ?case by (simp add: load_data_loop_step del: load_data_loop.simps(2))
qed

lemma remdups_skip: "n \<in> set bs \<Longrightarrow> remdups (as @ n # bs) = remdups (as @ bs)"
  by (induction as) auto

lemma first_occurrences_skip:
  "n \<in> set xs \<Longrightarrow> first_occurrences (xs @ n # ys) = first_occurrences (xs @ ys)"
  by (simp add: first_occurrences_def remdups_skip)

lemma first_occurrences_distinct: "distinct xs \<Longrightarrow> first_occurrences xs = xs"
  by (simp add: first_occurrences_def distinct_remdups_id)

lemma fold_update_keys:
  assumes "distinct (map fst data)"
  shows "map fst (fold (\<lambda>row. AList.update (nm row) (ent row)) rows data) =
         first_occurrences (map fst data @ map nm rows)"
  using assms
proof (induction rows arbitrary: data)
  case Nil
  then show ?case by (simp add: first_occurrences_distinct)
next
  case (Cons row rows)
  have d: "distinct (map fst (AList.update (nm row) (ent row) data))"
    using Cons.prems by (simp add: distinct_update)
  show ?case
  proof (cases "nm row \<in> set (map fst data)")
    case True
    then show ?thesis
      using Cons.IH[OF d] by (simp add: update_keys first_occurrences_skip)
  next
    case False
    then show ?thesis
      using Cons.IH[OF d] by (simp add: update_keys)
  qed
qed

lemma fold_update_map_of:
  "map_of (fold (\<lambda>row. AList.update (nm row) (ent row)) rows data) =
   map_of data ++ map_of (rev (map (\<lambda>row. (nm row, ent row)) rows))"
proof (induction rows arbitrary: data)
  case Nil
  show ?case by simp
next
  case (Cons row rows)
  show ?case
    by (simp add: Cons.IH update_conv' map_add_upd_left fun_eq_iff map_add_def
        split: option.splits)
qed

text \<open>
  \<^bold>\<open>C8\<close> (as the program has it).  \<^verbatim>\<open>load_data\<close> checks no parent reference: it never
  fails with \<open>MalformedPedigreeError\<close>, and for every collection of rows that have the four
  columns it succeeds with the dictionary that holds, for every name in the rows, the person of
  the last row of that name, each person's parent fields as the row has them (a blank field as
  \<open>None\<close>), whether or not a reference names a row and whether or not both are present.
\<close>

theorem load_data_never_malformed:
  "load_data rows \<noteq> Inl MalformedPedigreeError \<and>
   ((\<forall>row\<in>set rows. has_columns row) \<longrightarrow>
    (\<exists>people. load_data rows = Inr people \<and> loaded rows people))"
proof
  show "load_data rows \<noteq> Inl MalformedPedigreeError"
    using load_data_loop_not_malformed[of rows "[]"] by (simp add: load_data_def)
  show "(\<forall>row\<in>set rows. has_columns row) \<longrightarrow>
    (\<exists>people. load_data rows = Inr people \<and> loaded rows people)"
  proof
    assume "\<forall>row\<in>set rows. has_columns row"
    from load_data_loop_fold[OF this, of "[]"]
    show "\<exists>people. load_data rows = Inr people \<and> loaded rows people"
      using fold_update_keys[of "[]" "\<lambda>row. field row ''name''" person_of_row rows]
        fold_update_map_of[of "\<lambda>row. field row ''name''" person_of_row rows "[]"]
      by (simp add: load_data_def loaded_def)
  qed
qed

theorem load_data_never_malformed_witness:
  "\<exists>people. load_data orphan_rows = Inr people \<and> loaded orphan_rows people"
proof -
  have "\<forall>row\<in>set orphan_rows. has_columns row"
    by (simp add: orphan_rows_def has_columns_def)
  with load_data_never_malformed[of orphan_rows] show ?thesis by blast
qed

text \<open>
  In \<open>orphan_rows\<close> Harry's mother and father name no row, and Ron has a mother and no father.
  The specification has the construction fail on both counts; \<^verbatim>\<open>load_data\<close> returns the two
  people.
\<close>

theorem load_data_accepts_dangling_parents:
  "load_data orphan_rows =
     Inr [(''Harry'', \<lparr>name = ''Harry'', mother = Some ''Lily'', father = Some ''James'', trait = None\<rparr>),
          (''Ron'', \<lparr>name = ''Ron'', mother = Some ''Molly'', father = None, trait = Some True\<rparr>)]"
  by (simp add: load_data_def orphan_rows_def getitem_def)

subsection \<open>\<^verbatim>\<open>powerset\<close> and the loops of \<^verbatim>\<open>main\<close>\<close>

lemma combinations_filter_subseqs:
  "combinations xs r = filter (\<lambda>ys. length ys = r) (subseqs xs)"
proof (induction xs r rule: combinations.induct)
  case (1 xs)
  show ?case by (induction xs) (simp_all add: Let_def filter_map comp_def)
next
  case (2 r)
  show ?case by simp
next
  case (3 x xs r)
  then show ?case by (simp add: Let_def filter_map comp_def)
qed

lemma combinations_filter_subseqs_fun:
  "combinations xs = (\<lambda>r. filter (\<lambda>ys. length ys = r) (subseqs xs))"
  by (rule ext) (rule combinations_filter_subseqs)

lemma length_subseq_le: "ys \<in> set (subseqs xs) \<Longrightarrow> length ys \<le> length xs"
proof (induction xs arbitrary: ys)
  case Nil
  then show ?case by simp
next
  case (Cons x xs)
  from Cons.prems have "ys \<in> set (subseqs xs) \<or> (\<exists>zs\<in>set (subseqs xs). ys = x # zs)"
    by (auto simp: Let_def)
  with Cons.IH show ?case by (auto intro: le_SucI)
qed

lemma set_by_length:
  assumes "\<forall>y\<in>set zs. f y < n"
  shows "set (concat (map (\<lambda>r. filter (\<lambda>y. f y = r) zs) [0..<n])) = set zs"
  using assms by auto

lemma distinct_by_length:
  assumes "distinct (map g zs)"
  shows "distinct (map g (concat (map (\<lambda>r. filter (\<lambda>y. f y = r) zs) [0..<n])))"
proof (induction n)
  case 0
  show ?case by simp
next
  case (Suc n)
  have inj: "inj_on g (set zs)" and dz: "distinct zs"
    using assms by (auto simp: distinct_map)
  have "distinct (map g (filter (\<lambda>y. f y = n) zs))"
    using inj dz by (auto simp: distinct_map intro: inj_on_subset)
  moreover have "g ` set (concat (map (\<lambda>r. filter (\<lambda>y. f y = r) zs) [0..<n])) \<inter>
        g ` set (filter (\<lambda>y. f y = n) zs) = {}"
  proof -
    have "False" if "y \<in> set zs" "f y < n" "y' \<in> set zs" "f y' = n" "g y = g y'" for y y'
    proof -
      from inj that(1,3,5) have "y = y'" by (auto dest: inj_onD)
      with that(2,4) show False by simp
    qed
    then show ?thesis by (auto; blast)
  qed
  ultimately show ?case using Suc by simp
qed

lemma powerset_set: "finite s \<Longrightarrow> set (powerset s) = Pow s"
proof -
  assume fin: "finite s"
  let ?xs = "sorted_list_of_set s"
  have "\<forall>y\<in>set (subseqs ?xs). length y < length ?xs + 1"
    using length_subseq_le[of _ ?xs] by (auto simp: less_Suc_eq_le)
  from set_by_length[OF this]
  have "set (powerset s) = set ` set (subseqs ?xs)"
    by (simp add: powerset_def combinations_filter_subseqs_fun del: upt_Suc)
  also have "\<dots> = Pow s" using fin by (simp add: subseqs_powset)
  finally show ?thesis .
qed

lemma powerset_distinct: "distinct (powerset s)"
proof -
  have "distinct (map set (subseqs (sorted_list_of_set s)))"
    by (rule distinct_set_subseqs) simp
  from distinct_by_length[OF this, of length "length (sorted_list_of_set s) + 1"]
  show ?thesis
    by (simp add: powerset_def combinations_filter_subseqs_fun del: upt_Suc)
qed

lemma for_each_append:
  "for_each body (xs @ ys) s = and_then (for_each body xs s) (for_each body ys)"
  by (induction xs arbitrary: s) (auto simp: and_then_def split: sum.splits)

lemma for_each_concat_map:
  "for_each body (concat (map f xs)) = for_each (\<lambda>x. for_each body (f x)) xs"
proof
  fix s show "for_each body (concat (map f xs)) s = for_each (\<lambda>x. for_each body (f x)) xs s"
    by (induction xs arbitrary: s)
      (simp_all add: for_each_append and_then_def split: sum.splits)
qed

lemma for_each_map: "for_each body (map g xs) = for_each (\<lambda>x. body (g x)) xs"
proof
  fix s show "for_each body (map g xs) s = for_each (\<lambda>x. body (g x)) xs s"
    by (induction xs arbitrary: s) (simp_all add: and_then_def split: sum.splits)
qed

lemma for_each_if_Nil:
  "for_each body (if c then [] else xs) = (\<lambda>s. if c then Inr s else for_each body xs s)"
  by (rule ext) simp

lemma accumulate_step_triple:
  "accumulate_step P people (one_gene, two_genes, have_trait) =
   (\<lambda>probabilities. and_then (joint_probability P people one_gene two_genes have_trait)
      (update probabilities one_gene two_genes have_trait))"
  by (rule ext) (simp add: accumulate_step_def)

lemma accumulate_enumeration:
  "accumulate P people probabilities =
   for_each (accumulate_step P people) (enumeration people) probabilities"
  by (simp add: accumulate_def enumeration_def Let_def for_each_concat_map for_each_map
      for_each_concat_map[THEN fun_cong] for_each_map[THEN fun_cong]
      for_each_if_Nil accumulate_step_triple cong: if_cong)

subsection \<open>Accumulation\<close>

lemma has_keys_bump: "has_keys d \<Longrightarrow> has_keys (bump d n b p)"
  by (auto simp: has_keys_def bump_def)

lemma update_has_keys:
  assumes "\<forall>(k, d)\<in>set table. has_keys d"
  shows "update table one_gene two_genes have_trait p =
         Inr (map (\<lambda>(k, d). (k, bump d (get_number_of_genes_by_name k one_gene two_genes)
                                  (k \<in> have_trait) p)) table)"
  using assms
proof (induction table)
  case Nil
  show ?case by simp
next
  case (Cons e table)
  obtain k d where e: "e = (k, d)" by (cases e)
  from Cons.prems e have hk: "has_keys d" by simp
  have g: "getitem (dist_gene d) (get_number_of_genes_by_name k one_gene two_genes) =
           Inr (gene_total d (get_number_of_genes_by_name k one_gene two_genes))"
    using has_keys_getitem[OF hk] by (simp add: get_number_of_genes_by_name_def)
  from Cons show ?case
    by (simp add: e Let_def g has_keys_getitem(5)[OF hk] bump_def)
qed

lemma accumulate_step_PROBS:
  assumes "\<forall>(k, d)\<in>set table. has_keys d"
  shows "accumulate_step PROBS people a table =
         Inr (map (\<lambda>(k, d). (k, bump d (assigned_genes a k) (assigned_trait a k)
                                  (joint_value people a))) table)"
  by (cases a)
    (simp add: accumulate_step_def joint_probability_PROBS update_has_keys[OF assms]
      assigned_genes_def assigned_trait_def joint_value_def)

lemma for_each_accumulate_step:
  assumes "\<forall>(k, d)\<in>set table. has_keys d"
  shows "for_each (accumulate_step PROBS people) as table =
         Inr (map (\<lambda>(k, d). (k, tally people as k d)) table)"
  using assms
proof (induction as arbitrary: table)
  case Nil
  show ?case by simp
next
  case (Cons a as)
  let ?t = "map (\<lambda>(k, d). (k, bump d (assigned_genes a k) (assigned_trait a k)
                                  (joint_value people a))) table"
  have "\<forall>(k, d)\<in>set ?t. has_keys d"
    using Cons.prems by (auto simp: has_keys_bump)
  from Cons.IH[OF this] show ?case
    by (simp add: accumulate_step_PROBS[OF Cons.prems] comp_def case_prod_unfold)
qed

lemma gene_total_bump:
  "gene_total (bump d n b p) m = gene_total d m + (if n = m then p else 0)"
  by (simp add: bump_def gene_total_def)

lemma trait_total_bump:
  "trait_total (bump d n b p) c = trait_total d c + (if b = c then p else 0)"
  by (simp add: bump_def trait_total_def)

lemma gene_total_tally:
  "gene_total (tally people as k d) n =
   gene_total d n + (\<Sum>a\<leftarrow>as. if assigned_genes a k = n then joint_value people a else 0)"
  by (induction as arbitrary: d) (simp_all add: gene_total_bump)

lemma trait_total_tally:
  "trait_total (tally people as k d) b =
   trait_total d b + (\<Sum>a\<leftarrow>as. if assigned_trait a k = b then joint_value people a else 0)"
  by (induction as arbitrary: d) (simp_all add: trait_total_bump)

lemma has_keys_tally: "has_keys d \<Longrightarrow> has_keys (tally people as k d)"
  by (induction as arbitrary: d) (simp_all add: has_keys_bump)

lemma initial_probabilities_zero:
  "initial_probabilities people = map (\<lambda>(k, data). (k, zero_dist)) people"
  by (simp add: initial_probabilities_def zero_dist_def)

lemma has_keys_zero: "has_keys zero_dist"
  by (simp add: has_keys_def zero_dist_def)

lemma totals_zero: "gene_total zero_dist n = 0" "trait_total zero_dist b = 0"
  by (cases b; simp add: gene_total_def trait_total_def zero_dist_def)+

lemma accumulate_PROBS:
  "accumulate PROBS people (initial_probabilities people) =
   Inr (map (\<lambda>(k, data). (k, tally people (enumeration people) k zero_dist)) people)"
proof -
  have "\<forall>(k, d)\<in>set (initial_probabilities people). has_keys d"
    by (auto simp: initial_probabilities_zero has_keys_zero)
  from for_each_accumulate_step[OF this] show ?thesis
    by (simp add: accumulate_enumeration initial_probabilities_zero comp_def case_prod_unfold)
qed

lemma distinct_concat_map:
  assumes "distinct xs"
    and "\<And>x. x \<in> set xs \<Longrightarrow> distinct (f x)"
    and "\<And>x y. x \<in> set xs \<Longrightarrow> y \<in> set xs \<Longrightarrow> x \<noteq> y \<Longrightarrow> set (f x) \<inter> set (f y) = {}"
  shows "distinct (concat (map f xs))"
  using assms
proof (induction xs)
  case Nil
  show ?case by simp
next
  case (Cons x xs)
  have "set (f x) \<inter> set (f y) = {}" if "y \<in> set xs" for y
    using Cons.prems(1) that by (intro Cons.prems(3)) auto
  with Cons show ?case by auto
qed

lemma enumeration_distinct: "distinct (enumeration people)"
  unfolding enumeration_def Let_def
  by (intro distinct_concat_map powerset_distinct)
    (auto simp: distinct_map powerset_distinct intro!: distinct_concat_map inj_onI)

lemma fails_evidence_iff:
  assumes "distinct (map fst people)"
  shows "fails_evidence people (fst ` set people) t \<longleftrightarrow> \<not> respects_evidence people t"
proof -
  have look: "map_of people k = Some d \<longleftrightarrow> (k, d) \<in> set people" for k d
    using assms by (auto intro: map_of_is_SomeI dest: map_of_SomeD)
  show ?thesis
  proof
    assume "fails_evidence people (fst ` set people) t"
    then obtain k d where "map_of people k = Some d" "trait d \<noteq> None" "trait d \<noteq> Some (k \<in> t)"
      by (auto simp: fails_evidence_def split: option.splits)
    then have "(k, d) \<in> set people" "\<exists>b. trait d = Some b \<and> (k \<in> t) \<noteq> b"
      by (auto simp: look)
    then show "\<not> respects_evidence people t"
      unfolding respects_evidence_def by blast
  next
    assume "\<not> respects_evidence people t"
    then obtain k d b where kd: "(k, d) \<in> set people" "trait d = Some b" "(k \<in> t) \<noteq> b"
      by (auto simp: respects_evidence_def)
    then have "map_of people k = Some d" by (simp add: look)
    with kd show "fails_evidence people (fst ` set people) t"
      unfolding fails_evidence_def by (intro bexI[of _ k]) (auto intro: rev_image_eqI)
  qed
qed

lemma enumeration_mem:
  "(one_gene, two_genes, have_trait) \<in> set (enumeration people) \<longleftrightarrow>
   have_trait \<subseteq> fst ` set people \<and> \<not> fails_evidence people (fst ` set people) have_trait \<and>
   one_gene \<subseteq> fst ` set people \<and> two_genes \<subseteq> fst ` set people - one_gene"
proof -
  have "(one_gene, two_genes, have_trait) \<in> set (enumeration people) \<longleftrightarrow>
        (\<exists>t\<in>Pow (fst ` set people). \<not> fails_evidence people (fst ` set people) t \<and>
           (\<exists>o'\<in>Pow (fst ` set people). \<exists>tw\<in>Pow (fst ` set people - o').
              (one_gene, two_genes, have_trait) = (o', tw, t)))"
    by (auto simp: enumeration_def Let_def powerset_set)
  also have "\<dots> \<longleftrightarrow> have_trait \<subseteq> fst ` set people \<and>
      \<not> fails_evidence people (fst ` set people) have_trait \<and>
      one_gene \<subseteq> fst ` set people \<and> two_genes \<subseteq> fst ` set people - one_gene"
    by auto
  finally show ?thesis .
qed

lemma enumeration_set:
  assumes "distinct (map fst people)"
  shows "set (enumeration people) = consistent_assignments people"
  by (auto simp: enumeration_mem consistent_assignments_def fails_evidence_iff[OF assms])

lemma sum_list_enumeration:
  assumes "distinct (map fst people)"
  shows "(\<Sum>a\<leftarrow>enumeration people. if Q a then f a else 0) =
         (\<Sum>a\<in>{a \<in> consistent_assignments people. Q a}. f a)"
proof -
  have "(\<Sum>a\<leftarrow>enumeration people. if Q a then f a else 0) =
        (\<Sum>a\<in>set (enumeration people). if Q a then f a else 0)"
    by (rule sum_list_distinct_conv_sum_set) (rule enumeration_distinct)
  also have "\<dots> = (\<Sum>a\<in>{a \<in> set (enumeration people). Q a}. f a)"
    by (simp add: sum.inter_filter)
  finally show ?thesis by (simp add: enumeration_set[OF assms])
qed

lemma assignment_sets:
  assumes "(one_gene, two_genes, have_trait) \<in> consistent_assignments people"
  shows "one_gene = {k \<in> fst ` set people. assigned_genes (one_gene, two_genes, have_trait) k = 1}"
    and "two_genes = {k \<in> fst ` set people. assigned_genes (one_gene, two_genes, have_trait) k = 2}"
    and "have_trait = {k \<in> fst ` set people. assigned_trait (one_gene, two_genes, have_trait) k}"
  using assms
  by (auto simp: consistent_assignments_def assigned_genes_def assigned_trait_def
      get_number_of_genes_by_name_def split: if_splits)

lemma valuation_unique:
  assumes "a \<in> consistent_assignments people" "a' \<in> consistent_assignments people"
    and "\<forall>k\<in>fst ` set people. assigned_genes a k = assigned_genes a' k \<and>
           assigned_trait a k = assigned_trait a' k"
  shows "a = a'"
proof -
  obtain o1 tw1 t1 where a: "a = (o1, tw1, t1)" by (cases a)
  obtain o2 tw2 t2 where a': "a' = (o2, tw2, t2)" by (cases a')
  have g: "{k \<in> fst ` set people. assigned_genes a k = n} =
           {k \<in> fst ` set people. assigned_genes a' k = n}" for n
    using assms(3) by auto
  have t: "{k \<in> fst ` set people. assigned_trait a k} =
           {k \<in> fst ` set people. assigned_trait a' k}"
    using assms(3) by auto
  have "o1 = {k \<in> fst ` set people. assigned_genes a k = 1}"
    unfolding a by (rule assignment_sets(1)) (use assms(1) a in simp)
  also have "\<dots> = {k \<in> fst ` set people. assigned_genes a' k = 1}" by (rule g)
  also have "\<dots> = o2"
    unfolding a' by (rule assignment_sets(1)[symmetric]) (use assms(2) a' in simp)
  finally have 1: "o1 = o2" .
  have "tw1 = {k \<in> fst ` set people. assigned_genes a k = 2}"
    unfolding a by (rule assignment_sets(2)) (use assms(1) a in simp)
  also have "\<dots> = {k \<in> fst ` set people. assigned_genes a' k = 2}" by (rule g)
  also have "\<dots> = tw2"
    unfolding a' by (rule assignment_sets(2)[symmetric]) (use assms(2) a' in simp)
  finally have 2: "tw1 = tw2" .
  have "t1 = {k \<in> fst ` set people. assigned_trait a k}"
    unfolding a by (rule assignment_sets(3)) (use assms(1) a in simp)
  also have "\<dots> = {k \<in> fst ` set people. assigned_trait a' k}" by (rule t)
  also have "\<dots> = t2"
    unfolding a' by (rule assignment_sets(3)[symmetric]) (use assms(2) a' in simp)
  finally have 3: "t1 = t2" .
  from 1 2 3 show ?thesis by (simp add: a a')
qed

lemma valuation_exists:
  assumes "\<forall>k\<in>fst ` set people. g k \<le> (2::nat)"
    and "\<forall>(k, data)\<in>set people. \<forall>b. trait data = Some b \<longrightarrow> \<tau> k = b"
  shows "\<exists>a\<in>consistent_assignments people.
           \<forall>k\<in>fst ` set people. assigned_genes a k = g k \<and> assigned_trait a k = \<tau> k"
proof (intro bexI[of _ "({k \<in> fst ` set people. g k = 1}, {k \<in> fst ` set people. g k = 2},
      {k \<in> fst ` set people. \<tau> k})"] ballI)
  fix k assume "k \<in> fst ` set people"
  with assms(1) have "g k = 0 \<or> g k = 1 \<or> g k = 2" by (auto simp: le_Suc_eq numeral_2_eq_2)
  with \<open>k \<in> fst ` set people\<close>
  show "assigned_genes ({k \<in> fst ` set people. g k = 1}, {k \<in> fst ` set people. g k = 2},
          {k \<in> fst ` set people. \<tau> k}) k = g k \<and>
        assigned_trait ({k \<in> fst ` set people. g k = 1}, {k \<in> fst ` set people. g k = 2},
          {k \<in> fst ` set people. \<tau> k}) k = \<tau> k"
    by (auto simp: assigned_genes_def assigned_trait_def get_number_of_genes_by_name_def)
next
  show "({k \<in> fst ` set people. g k = 1}, {k \<in> fst ` set people. g k = 2},
      {k \<in> fst ` set people. \<tau> k}) \<in> consistent_assignments people"
    using assms(2)
    by (auto simp: consistent_assignments_def respects_evidence_def intro: rev_image_eqI)
qed

text \<open>
  \<^bold>\<open>C2.\<close>  For a pedigree (a dictionary: the keys are distinct) the loops of \<^verbatim>\<open>main\<close>
  reach the body once for each assignment consistent with the evidence: the list of
  assignments has no repetition, its elements are exactly the consistent assignments, and every
  choice of a gene count in 0..2 and a trait value for each person that agrees with the observed
  traits is the choice of exactly one listed assignment.  Hence after the loops the total in
  each bucket of each person is the sum of the joint probabilities of the consistent
  assignments that put the person in that bucket.
\<close>

theorem enumeration_exactly_once:
  assumes "distinct (map fst people)"
  shows "distinct (enumeration people) \<and>
         set (enumeration people) = consistent_assignments people \<and>
         (\<forall>g \<tau>. (\<forall>k\<in>fst ` set people. g k \<le> 2) \<and>
                 (\<forall>(k, data)\<in>set people. \<forall>b. trait data = Some b \<longrightarrow> \<tau> k = b) \<longrightarrow>
            (\<exists>!a. a \<in> set (enumeration people) \<and>
               (\<forall>k\<in>fst ` set people. assigned_genes a k = g k \<and> assigned_trait a k = \<tau> k))) \<and>
         (\<forall>one_gene two_genes have_trait.
            joint_probability PROBS people one_gene two_genes have_trait =
              Inr (joint_value people (one_gene, two_genes, have_trait))) \<and>
         (\<exists>table. accumulate PROBS people (initial_probabilities people) = Inr table \<and>
            map fst table = map fst people \<and>
            (\<forall>(k, d)\<in>set table.
               (\<forall>n. gene_total d n =
                  (\<Sum>a\<in>{a \<in> consistent_assignments people. assigned_genes a k = n}.
                     joint_value people a)) \<and>
               (\<forall>b. trait_total d b =
                  (\<Sum>a\<in>{a \<in> consistent_assignments people. assigned_trait a k = b}.
                     joint_value people a))))"
proof (intro conjI)
  show "distinct (enumeration people)" by (rule enumeration_distinct)
  show "set (enumeration people) = consistent_assignments people"
    by (rule enumeration_set[OF assms])
  show "\<forall>g \<tau>. (\<forall>k\<in>fst ` set people. g k \<le> 2) \<and>
                 (\<forall>(k, data)\<in>set people. \<forall>b. trait data = Some b \<longrightarrow> \<tau> k = b) \<longrightarrow>
            (\<exists>!a. a \<in> set (enumeration people) \<and>
               (\<forall>k\<in>fst ` set people. assigned_genes a k = g k \<and> assigned_trait a k = \<tau> k))"
  proof (intro allI impI, elim conjE)
    fix g :: "string \<Rightarrow> nat" and \<tau> :: "string \<Rightarrow> bool"
    assume g: "\<forall>k\<in>fst ` set people. g k \<le> 2"
      and t: "\<forall>(k, data)\<in>set people. \<forall>b. trait data = Some b \<longrightarrow> \<tau> k = b"
    from valuation_exists[OF g t] obtain a where
      a: "a \<in> consistent_assignments people"
      "\<forall>k\<in>fst ` set people. assigned_genes a k = g k \<and> assigned_trait a k = \<tau> k"
      by blast
    show "\<exists>!a. a \<in> set (enumeration people) \<and>
               (\<forall>k\<in>fst ` set people. assigned_genes a k = g k \<and> assigned_trait a k = \<tau> k)"
    proof (rule ex1I[of _ a])
      show "a \<in> set (enumeration people) \<and>
            (\<forall>k\<in>fst ` set people. assigned_genes a k = g k \<and> assigned_trait a k = \<tau> k)"
        using a by (simp add: enumeration_set[OF assms])
    next
      fix a' assume "a' \<in> set (enumeration people) \<and>
            (\<forall>k\<in>fst ` set people. assigned_genes a' k = g k \<and> assigned_trait a' k = \<tau> k)"
      with a show "a' = a"
        by (intro valuation_unique[of a' people a]) (simp_all add: enumeration_set[OF assms])
    qed
  qed
  show "\<forall>one_gene two_genes have_trait.
            joint_probability PROBS people one_gene two_genes have_trait =
              Inr (joint_value people (one_gene, two_genes, have_trait))"
    by (simp add: joint_probability_PROBS joint_value_def)
  show "\<exists>table. accumulate PROBS people (initial_probabilities people) = Inr table \<and>
            map fst table = map fst people \<and>
            (\<forall>(k, d)\<in>set table.
               (\<forall>n. gene_total d n =
                  (\<Sum>a\<in>{a \<in> consistent_assignments people. assigned_genes a k = n}.
                     joint_value people a)) \<and>
               (\<forall>b. trait_total d b =
                  (\<Sum>a\<in>{a \<in> consistent_assignments people. assigned_trait a k = b}.
                     joint_value people a)))"
  proof (intro exI[of _ "map (\<lambda>(k, data). (k, tally people (enumeration people) k zero_dist))
      people"] conjI)
    show "accumulate PROBS people (initial_probabilities people) =
          Inr (map (\<lambda>(k, data). (k, tally people (enumeration people) k zero_dist)) people)"
      by (rule accumulate_PROBS)
    show "map fst (map (\<lambda>(k, data). (k, tally people (enumeration people) k zero_dist)) people) =
          map fst people"
      by (induction people) auto
    show "\<forall>(k, d)\<in>set (map (\<lambda>(k, data). (k, tally people (enumeration people) k zero_dist))
             people).
            (\<forall>n. gene_total d n =
               (\<Sum>a\<in>{a \<in> consistent_assignments people. assigned_genes a k = n}.
                  joint_value people a)) \<and>
            (\<forall>b. trait_total d b =
               (\<Sum>a\<in>{a \<in> consistent_assignments people. assigned_trait a k = b}.
                  joint_value people a))"
    proof (intro ballI, clarify)
      fix k d assume "(k, d) \<in> set (map (\<lambda>(k, data).
        (k, tally people (enumeration people) k zero_dist)) people)"
      then have d: "d = tally people (enumeration people) k zero_dist" by auto
      show "(\<forall>n. gene_total d n =
               (\<Sum>a\<in>{a \<in> consistent_assignments people. assigned_genes a k = n}.
                  joint_value people a)) \<and>
            (\<forall>b. trait_total d b =
               (\<Sum>a\<in>{a \<in> consistent_assignments people. assigned_trait a k = b}.
                  joint_value people a))"
        unfolding d gene_total_tally trait_total_tally totals_zero sum_list_enumeration[OF assms]
        by simp
    qed
  qed
qed

theorem enumeration_exactly_once_witness:
  "distinct (enumeration harry_family) \<and>
   set (enumeration harry_family) = consistent_assignments harry_family \<and>
   (\<exists>table. accumulate PROBS harry_family (initial_probabilities harry_family) = Inr table \<and>
      map fst table = [''Harry'', ''James'', ''Lily''])"
proof -
  have d: "distinct (map fst harry_family)" by (simp add: harry_family_def)
  have m: "map fst harry_family = [''Harry'', ''James'', ''Lily'']" by (simp add: harry_family_def)
  note e = enumeration_exactly_once[OF d]
  from e[THEN conjunct2, THEN conjunct2, THEN conjunct2, THEN conjunct2]
  have "\<exists>table. accumulate PROBS harry_family (initial_probabilities harry_family) = Inr table \<and>
      map fst table = [''Harry'', ''James'', ''Lily'']"
    unfolding m by (elim exE conjE) (intro exI conjI)
  with e[THEN conjunct1] e[THEN conjunct2, THEN conjunct1] show ?thesis by (intro conjI)
qed

subsection \<open>The result of \<^verbatim>\<open>main\<close>\<close>

lemma unconditional_prior_pos: "0 < unconditional_prior n"
  by (simp add: unconditional_prior_def)

lemma trait_given_genes_pos: "0 < trait_given_genes n b"
  by (simp add: trait_given_genes_def)

lemma transmission_bounds: "0 < transmission (1 / 100) n" "transmission (1 / 100) n < 1"
  by (simp_all add: transmission_def)

lemma child_count_probability_pos:
  assumes "0 < pm" "pm < 1" "0 < pf" "pf < 1" "c \<le> 2"
  shows "0 < child_count_probability pm pf c"
proof -
  from assms(5) consider "c = 0" | "c = 1" | "c = 2" by linarith
  then show ?thesis
    using assms(1-4) by cases (simp_all add: child_count_probability_simps add_pos_pos)
qed

lemma gene_factor_pos: "n \<le> 2 \<Longrightarrow> 0 < gene_factor one_gene two_genes data n"
  by (simp add: gene_factor_def unconditional_prior_pos child_count_probability_pos
      transmission_bounds split: option.splits)

lemma person_factor_pos: "0 < person_factor one_gene two_genes have_trait k data"
  by (simp add: person_factor_def gene_factor_pos get_number_le2 trait_given_genes_pos)

lemma prod_list_pos: "(\<And>x. x \<in> set xs \<Longrightarrow> 0 < f x) \<Longrightarrow> 0 < (\<Prod>x\<leftarrow>xs. (f x :: real))"
  by (induction xs) simp_all

lemma joint_value_pos: "0 < joint_value people a"
  by (cases a) (auto simp: joint_value_def person_factor_pos intro!: prod_list_pos)

lemma map_of_map_entry:
  "map_of (map (\<lambda>(k, v). (k, f k v)) xs) x = map_option (f x) (map_of xs x)"
  by (induction xs) auto

lemma sum_list_pos_nonempty:
  "xs \<noteq> [] \<Longrightarrow> (\<And>x. x \<in> set xs \<Longrightarrow> 0 < f x) \<Longrightarrow>
   0 < (\<Sum>x\<leftarrow>xs. (f x :: real))"
proof (induction xs)
  case Nil
  then show ?case by simp
next
  case (Cons a xs)
  have "0 \<le> (\<Sum>x\<leftarrow>xs. f x)"
    using Cons.prems(2) by (intro sum_list_nonneg) (auto intro: less_imp_le)
  moreover have "0 < f a" using Cons.prems(2) by simp
  ultimately show ?case by simp
qed

lemma enumeration_nonempty:
  assumes "distinct (map fst people)"
  shows "enumeration people \<noteq> []"
proof -
  have "\<forall>k\<in>fst ` set people. (\<lambda>k. 0::nat) k \<le> 2" by simp
  moreover have "\<forall>(k, data)\<in>set people. \<forall>b. trait data = Some b \<longrightarrow>
      (\<lambda>k. \<exists>d. map_of people k = Some d \<and> trait d = Some True) k = b"
    by (auto simp: map_of_is_SomeI[OF assms])
  ultimately obtain a where "a \<in> consistent_assignments people"
    using valuation_exists[of people "\<lambda>k. 0"
        "\<lambda>k. \<exists>d. map_of people k = Some d \<and> trait d = Some True"]
    by blast
  then show ?thesis using enumeration_set[OF assms] by auto
qed

lemma total_mass_pos: "distinct (map fst people) \<Longrightarrow> 0 < total_mass people"
  unfolding total_mass_def
  by (intro sum_list_pos_nonempty enumeration_nonempty joint_value_pos)

lemma assigned_genes_le2: "assigned_genes a k \<le> 2"
  by (cases a) (simp add: assigned_genes_def get_number_le2)

lemma sum_list_split3:
  assumes "\<And>a. a \<in> set as \<Longrightarrow> g a \<le> (2::nat)"
  shows "(\<Sum>a\<leftarrow>as. if g a = 2 then f a else 0) + (\<Sum>a\<leftarrow>as. if g a = 1 then f a else 0) +
         (\<Sum>a\<leftarrow>as. if g a = 0 then f a else 0) = (\<Sum>a\<leftarrow>as. (f a :: real))"
  using assms
proof (induction as)
  case Nil
  show ?case by simp
next
  case (Cons a as)
  from Cons.prems[of a] have "g a = 0 \<or> g a = 1 \<or> g a = 2" by auto
  with Cons show ?case by auto
qed

lemma sum_list_split2:
  "(\<Sum>a\<leftarrow>as. if g a = True then f a else 0) + (\<Sum>a\<leftarrow>as. if g a = False then f a else 0) =
   (\<Sum>a\<leftarrow>as. (f a :: real))"
  by (induction as) auto

lemma gene_sum_tally:
  "gene_sum (tally people (enumeration people) k zero_dist) = total_mass people"
  unfolding gene_sum_def gene_total_tally totals_zero total_mass_def
  using sum_list_split3[where as = "enumeration people" and g = "\<lambda>a. assigned_genes a k"
      and f = "joint_value people"]
  by (simp add: assigned_genes_le2)

lemma trait_sum_tally:
  "trait_sum (tally people (enumeration people) k zero_dist) = total_mass people"
  unfolding trait_sum_def trait_total_tally totals_zero total_mass_def
  using sum_list_split2[where as = "enumeration people" and g = "\<lambda>a. assigned_trait a k"
      and f = "joint_value people"]
  by simp

lemma main_PROBS:
  assumes "distinct (map fst people)"
  shows "main PROBS people =
         Inr (map (\<lambda>(k, data). (k, rescale (tally people (enumeration people) k zero_dist)))
                people)"
proof -
  let ?acc = "map (\<lambda>(k, data). (k, tally people (enumeration people) k zero_dist)) people"
  have "\<forall>(k, d)\<in>set ?acc. has_keys d \<and> gene_sum d \<noteq> 0 \<and> trait_sum d \<noteq> 0"
    using total_mass_pos[OF assms]
    by (auto simp: has_keys_tally has_keys_zero gene_sum_tally trait_sum_tally)
  from normalize_ok[OF this] show ?thesis
    by (simp add: main_def accumulate_PROBS comp_def case_prod_unfold)
qed

lemma rescale_entries:
  "dist_trait (rescale d) b = Some (trait_total d b * (1 / trait_sum d))"
  "dist_gene (rescale d) 0 = Some (gene_total d 0 * (1 / gene_sum d))"
  "dist_gene (rescale d) 1 = Some (gene_total d 1 * (1 / gene_sum d))"
  "dist_gene (rescale d) 2 = Some (gene_total d 2 * (1 / gene_sum d))"
  by (cases b; simp add: rescale_def)+

lemma main_lookup:
  assumes "distinct (map fst people)" and "(x, data) \<in> set people"
  shows "\<exists>table. main PROBS people = Inr table \<and>
           map_of table x = Some (rescale (tally people (enumeration people) x zero_dist))"
proof -
  have "map_of people x = Some data"
    using assms by (rule map_of_is_SomeI)
  then show ?thesis
    by (simp add: main_PROBS[OF assms(1)] map_of_map_entry)
qed

lemma enumeration_respects:
  assumes "distinct (map fst people)" and "(x, data) \<in> set people" and "trait data = Some b"
    and "a \<in> set (enumeration people)"
  shows "assigned_trait a x = b"
proof -
  obtain one_gene two_genes have_trait where a: "a = (one_gene, two_genes, have_trait)"
    by (cases a)
  from assms(4) have "respects_evidence people have_trait"
    by (simp add: enumeration_set[OF assms(1)] consistent_assignments_def a)
  with assms(2,3) show ?thesis
    by (auto simp: respects_evidence_def assigned_trait_def a)
qed

text \<open>
  \<^bold>\<open>C6.\<close>  For every pedigree and every person whose trait is observed as \<open>b\<close>: every
  enumerated assignment gives the person the trait value \<open>b\<close> (for \<open>b\<close> true, the person is
  in every have-trait set), and in the table \<^verbatim>\<open>main\<close> computes the person's trait
  distribution has 1 at \<open>b\<close> and 0 at the other value.
\<close>

theorem observed_trait_marginal:
  assumes "distinct (map fst people)" and "(x, data) \<in> set people" and "trait data = Some b"
  shows "(\<forall>a\<in>set (enumeration people). assigned_trait a x = b) \<and>
         (\<exists>table d. main PROBS people = Inr table \<and> map_of table x = Some d \<and>
            dist_trait d b = Some 1 \<and> dist_trait d (\<not> b) = Some 0)"
proof
  show all: "\<forall>a\<in>set (enumeration people). assigned_trait a x = b"
    using enumeration_respects[OF assms] by blast
  let ?d = "tally people (enumeration people) x zero_dist"
  have "(\<Sum>a\<leftarrow>enumeration people. if assigned_trait a x = (\<not> b) then joint_value people a else 0) =
        (\<Sum>a\<leftarrow>enumeration people. 0)"
    using all by (intro arg_cong[of _ _ sum_list] map_cong refl) auto
  then have zero: "trait_total ?d (\<not> b) = 0"
    by (simp add: trait_total_tally totals_zero)
  have "trait_total ?d b + trait_total ?d (\<not> b) = trait_sum ?d"
    by (cases b) (simp_all add: trait_sum_def)
  with zero have full: "trait_total ?d b = total_mass people"
    by (simp add: trait_sum_tally)
  have pos: "total_mass people \<noteq> 0"
    using total_mass_pos[OF assms(1)] by simp
  from main_lookup[OF assms(1,2)] obtain table where
    "main PROBS people = Inr table" "map_of table x = Some (rescale ?d)"
    by blast
  moreover have "dist_trait (rescale ?d) b = Some 1"
    using pos by (simp add: rescale_entries full trait_sum_tally)
  moreover have "dist_trait (rescale ?d) (\<not> b) = Some 0"
    by (simp add: rescale_entries zero)
  ultimately show "\<exists>table d. main PROBS people = Inr table \<and> map_of table x = Some d \<and>
            dist_trait d b = Some 1 \<and> dist_trait d (\<not> b) = Some 0"
    by blast
qed

theorem observed_trait_marginal_witness:
  "\<exists>table d. main PROBS harry_family = Inr table \<and> map_of table ''James'' = Some d \<and>
      dist_trait d True = Some 1 \<and> dist_trait d False = Some 0"
proof -
  have d: "distinct (map fst harry_family)" by (simp add: harry_family_def)
  have m: "(''James'', \<lparr>name = ''James'', mother = None, father = None, trait = Some True\<rparr>)
           \<in> set harry_family"
    by (simp add: harry_family_def)
  from observed_trait_marginal[OF d m, of True] show ?thesis by simp
qed

text \<open>
  \<^bold>\<open>C9.\<close>  For the pedigree of one person with no parents and the trait observed, the
  gene-count distribution that \<^verbatim>\<open>main\<close> computes is 96/329, 168/329, 65/329 for the counts
  0, 1, 2: above the prior 0.01 at count 2, above 0.03 at count 1, below 0.96 at count 0.
\<close>

theorem single_person_posterior:
  "\<exists>d. main PROBS [(k, \<lparr>name = n, mother = None, father = None, trait = Some True\<rparr>)] =
          Inr [(k, d)] \<and>
        dist_gene d = [0 \<mapsto> 96 / 329, 1 \<mapsto> 168 / 329, 2 \<mapsto> 65 / 329] \<and>
        gene_total d 2 > 0.01 \<and> gene_total d 1 > 0.03 \<and> gene_total d 0 < 0.96"
  by (simp add: main_def accumulate_def initial_probabilities_def powerset_def fails_evidence_def
      joint_probability_PROBS person_factor_def gene_factor_def get_number_of_genes_by_name_def
      unconditional_prior_def trait_given_genes_def getitem_def upt_rec gene_total_def)

subsection \<open>Marginals without evidence\<close>

lemma prod_list_people:
  assumes "distinct (map fst people)"
  shows "(\<Prod>(k, data)\<leftarrow>people. h k data) =
         (\<Prod>k\<in>fst ` set people. case map_of people k of None \<Rightarrow> 1 | Some data \<Rightarrow> h k data)"
proof -
  have "(\<Prod>k\<in>set (map fst people). case map_of people k of None \<Rightarrow> 1 | Some data \<Rightarrow> h k data) =
        (\<Prod>k\<leftarrow>map fst people. case map_of people k of None \<Rightarrow> 1 | Some data \<Rightarrow> h k data)"
    using assms by (rule prod.distinct_set_conv_list)
  also have "\<dots> = (\<Prod>(k, data)\<leftarrow>people. h k data)"
    unfolding map_map
    by (intro arg_cong[of _ _ prod_list] map_cong refl)
      (auto simp: map_of_is_SomeI[OF assms])
  finally show ?thesis by simp
qed

lemma joint_value_split:
  assumes "distinct (map fst people)"
  shows "joint_value people (one_gene, two_genes, have_trait) =
         (\<Prod>k\<in>fst ` set people. gene_weight people one_gene two_genes k) *
         (\<Prod>k\<in>fst ` set people.
            trait_given_genes (get_number_of_genes_by_name k one_gene two_genes) (k \<in> have_trait))"
proof -
  have "joint_value people (one_gene, two_genes, have_trait) =
        (\<Prod>k\<in>fst ` set people. case map_of people k of None \<Rightarrow> 1
           | Some data \<Rightarrow> person_factor one_gene two_genes have_trait k data)"
    by (simp add: joint_value_def prod_list_people[OF assms])
  also have "\<dots> = (\<Prod>k\<in>fst ` set people. gene_weight people one_gene two_genes k *
            trait_given_genes (get_number_of_genes_by_name k one_gene two_genes) (k \<in> have_trait))"
    by (intro prod.cong refl)
      (auto simp: gene_weight_def person_factor_def split: option.splits
        dest: map_of_eq_None_iff[THEN iffD1])
  finally show ?thesis by (simp add: prod.distrib)
qed

lemma trait_given_genes_sum: "trait_given_genes n True + trait_given_genes n False = 1"
  by (simp add: trait_given_genes_def)

lemma trait_sum_one:
  assumes "finite K"
  shows "(\<Sum>t\<in>Pow K. \<Prod>k\<in>K. trait_given_genes (g k) (k \<in> t)) = 1"
proof -
  have "(\<Sum>t\<in>Pow K. \<Prod>k\<in>K. trait_given_genes (g k) (k \<in> t)) =
        (\<Sum>t\<in>Pow K. (\<Prod>k\<in>t. trait_given_genes (g k) True) *
                     (\<Prod>k\<in>K - t. trait_given_genes (g k) False))"
  proof (intro sum.cong refl)
    fix t assume "t \<in> Pow K"
    then have t: "K \<inter> t = t" "K \<inter> - t = K - t" by auto
    have "(\<Prod>k\<in>K. trait_given_genes (g k) (k \<in> t)) =
          (\<Prod>k\<in>K. if k \<in> t then trait_given_genes (g k) True else trait_given_genes (g k) False)"
      by (intro prod.cong refl) simp
    also have "\<dots> = (\<Prod>k\<in>t. trait_given_genes (g k) True) *
                     (\<Prod>k\<in>K - t. trait_given_genes (g k) False)"
      by (simp add: prod.If_cases[OF assms] t)
    finally show "(\<Prod>k\<in>K. trait_given_genes (g k) (k \<in> t)) =
          (\<Prod>k\<in>t. trait_given_genes (g k) True) * (\<Prod>k\<in>K - t. trait_given_genes (g k) False)" .
  qed
  also have "\<dots> = (\<Prod>k\<in>K. trait_given_genes (g k) True + trait_given_genes (g k) False)"
    by (rule prod_add[OF assms, symmetric])
  finally show ?thesis by (simp add: trait_given_genes_sum)
qed

lemma sum_list_powerset:
  "finite s \<Longrightarrow> (\<Sum>x\<leftarrow>powerset s. f x) = (\<Sum>x\<in>Pow s. (f x :: real))"
  using sum_list_distinct_conv_sum_set[OF powerset_distinct, of f s]
  by (simp add: powerset_set)

lemma sum_list_concat_map:
  "(\<Sum>y\<leftarrow>concat (map f xs). (h y :: real)) = (\<Sum>x\<leftarrow>xs. \<Sum>y\<leftarrow>f x. h y)"
  by (induction xs) simp_all

lemma no_evidence_never_fails:
  assumes "distinct (map fst people)" and "\<forall>(k, data)\<in>set people. trait data = None"
  shows "\<not> fails_evidence people (fst ` set people) t"
  using assms(2) by (auto simp: fails_evidence_iff[OF assms(1)] respects_evidence_def)

lemma sum_list_enumeration_nested:
  assumes "distinct (map fst people)" and "\<forall>(k, data)\<in>set people. trait data = None"
  shows "(\<Sum>a\<leftarrow>enumeration people. (h a :: real)) =
         (\<Sum>t\<in>Pow (fst ` set people). \<Sum>one_gene\<in>Pow (fst ` set people).
            \<Sum>two_genes\<in>Pow (fst ` set people - one_gene). h (one_gene, two_genes, t))"
proof -
  have fin: "finite (fst ` set people)" by simp
  have "(\<Sum>a\<leftarrow>enumeration people. h a) =
        (\<Sum>t\<leftarrow>powerset (fst ` set people). \<Sum>one_gene\<leftarrow>powerset (fst ` set people).
           \<Sum>two_genes\<leftarrow>powerset (fst ` set people - one_gene). h (one_gene, two_genes, t))"
    by (simp add: enumeration_def Let_def sum_list_concat_map no_evidence_never_fails[OF assms]
        comp_def)
  also have "\<dots> = (\<Sum>t\<in>Pow (fst ` set people). \<Sum>one_gene\<in>Pow (fst ` set people).
            \<Sum>two_genes\<in>Pow (fst ` set people - one_gene). h (one_gene, two_genes, t))"
    by (simp add: sum_list_powerset)
  finally show ?thesis .
qed

lemma marginal_gene_no_evidence:
  assumes "distinct (map fst people)" and "\<forall>(k, data)\<in>set people. trait data = None"
  shows "(\<Sum>a\<leftarrow>enumeration people. if assigned_genes a x = n then joint_value people a else 0) =
         gsum (fst ` set people) (\<lambda>one_gene two_genes.
           if get_number_of_genes_by_name x one_gene two_genes = n
           then \<Prod>k\<in>fst ` set people. gene_weight people one_gene two_genes k else 0)"
proof -
  let ?K = "fst ` set people"
  let ?G = "\<lambda>one_gene two_genes. \<Prod>k\<in>?K. gene_weight people one_gene two_genes k"
  let ?T = "\<lambda>one_gene two_genes t. \<Prod>k\<in>?K.
      trait_given_genes (get_number_of_genes_by_name k one_gene two_genes) (k \<in> t)"
  have "(\<Sum>a\<leftarrow>enumeration people. if assigned_genes a x = n then joint_value people a else 0) =
        (\<Sum>t\<in>Pow ?K. \<Sum>one_gene\<in>Pow ?K. \<Sum>two_genes\<in>Pow (?K - one_gene).
           (if get_number_of_genes_by_name x one_gene two_genes = n then ?G one_gene two_genes else 0) *
           ?T one_gene two_genes t)"
    unfolding sum_list_enumeration_nested[OF assms]
    by (intro sum.cong refl) (simp add: assigned_genes_def joint_value_split[OF assms(1)])
  also have "\<dots> = (\<Sum>one_gene\<in>Pow ?K. \<Sum>t\<in>Pow ?K. \<Sum>two_genes\<in>Pow (?K - one_gene).
           (if get_number_of_genes_by_name x one_gene two_genes = n then ?G one_gene two_genes else 0) *
           ?T one_gene two_genes t)"
    by (rule sum.swap)
  also have "\<dots> = (\<Sum>one_gene\<in>Pow ?K. \<Sum>two_genes\<in>Pow (?K - one_gene). \<Sum>t\<in>Pow ?K.
           (if get_number_of_genes_by_name x one_gene two_genes = n then ?G one_gene two_genes else 0) *
           ?T one_gene two_genes t)"
    by (intro sum.cong refl sum.swap)
  also have "\<dots> = (\<Sum>one_gene\<in>Pow ?K. \<Sum>two_genes\<in>Pow (?K - one_gene).
           (if get_number_of_genes_by_name x one_gene two_genes = n then ?G one_gene two_genes else 0))"
    by (intro sum.cong refl) (simp add: sum_distrib_left[symmetric] trait_sum_one)
  finally show ?thesis by (simp add: gsum_def)
qed

lemma sum_Pow_insert:
  assumes "finite A" "y \<notin> A"
  shows "(\<Sum>X\<in>Pow (insert y A). (f X :: real)) =
         (\<Sum>X\<in>Pow A. f X) + (\<Sum>X\<in>Pow A. f (insert y X))"
proof -
  have inj: "inj_on (insert y) (Pow A)"
    using assms(2) by (auto simp: inj_on_def)
  have disj: "Pow A \<inter> insert y ` Pow A = {}"
    using assms(2) by auto
  have "(\<Sum>X\<in>Pow (insert y A). f X) = (\<Sum>X\<in>Pow A \<union> insert y ` Pow A. f X)"
    by (simp add: Pow_insert)
  also have "\<dots> = (\<Sum>X\<in>Pow A. f X) + (\<Sum>X\<in>insert y ` Pow A. f X)"
    using assms(1) disj by (intro sum.union_disjoint) auto
  also have "(\<Sum>X\<in>insert y ` Pow A. f X) = (\<Sum>X\<in>Pow A. f (insert y X))"
    using inj by (simp add: sum.reindex)
  finally show ?thesis .
qed

lemma gsum_cong:
  assumes "\<And>one_gene two_genes. one_gene \<subseteq> L \<Longrightarrow> two_genes \<subseteq> L - one_gene \<Longrightarrow>
             F one_gene two_genes = G one_gene two_genes"
  shows "gsum L F = gsum L G"
  unfolding gsum_def by (intro sum.cong refl assms) auto

lemma gsum_insert:
  assumes "finite L" "y \<notin> L"
  shows "gsum (insert y L) F =
         gsum L (\<lambda>one_gene two_genes.
           F one_gene two_genes + F (insert y one_gene) two_genes + F one_gene (insert y two_genes))"
proof -
  have 1: "(\<Sum>tw\<in>Pow (insert y L - one). F one tw) =
           (\<Sum>tw\<in>Pow (L - one). F one tw) + (\<Sum>tw\<in>Pow (L - one). F one (insert y tw))"
    if "one \<in> Pow L" for one
  proof -
    from that assms(2) have "insert y L - one = insert y (L - one)" by auto
    then show ?thesis
      using sum_Pow_insert[of "L - one" y "F one"] assms by simp
  qed
  have 2: "(\<Sum>tw\<in>Pow (insert y L - insert y one). F (insert y one) tw) =
           (\<Sum>tw\<in>Pow (L - one). F (insert y one) tw)" if "one \<in> Pow L" for one
  proof -
    from that assms(2) have "insert y L - insert y one = L - one" by auto
    then show ?thesis by simp
  qed
  have "gsum (insert y L) F =
        (\<Sum>one\<in>Pow L. \<Sum>tw\<in>Pow (insert y L - one). F one tw) +
        (\<Sum>one\<in>Pow L. \<Sum>tw\<in>Pow (insert y L - insert y one). F (insert y one) tw)"
    unfolding gsum_def by (rule sum_Pow_insert[OF assms])
  also have "\<dots> =
        (\<Sum>one\<in>Pow L. (\<Sum>tw\<in>Pow (L - one). F one tw) + (\<Sum>tw\<in>Pow (L - one). F one (insert y tw))) +
        (\<Sum>one\<in>Pow L. \<Sum>tw\<in>Pow (L - one). F (insert y one) tw)"
    using 1 2 by simp
  also have "\<dots> = gsum L (\<lambda>one_gene two_genes.
           F one_gene two_genes + F (insert y one_gene) two_genes + F one_gene (insert y two_genes))"
    unfolding gsum_def by (simp add: sum.distrib)
  finally show ?thesis .
qed

lemma gsum_empty: "gsum {} F = F {} {}"
  by (simp add: gsum_def)

lemma gene_factor_sum_one:
  "gene_factor one_gene two_genes data 0 + gene_factor one_gene two_genes data 1 +
   gene_factor one_gene two_genes data 2 = 1"
  by (simp add: gene_factor_def unconditional_prior_def child_count_probability_simps
      algebra_simps split: option.splits)

lemma gene_factor_root:
  "\<not> (truthy (mother data) \<and> truthy (father data)) \<Longrightarrow>
   gene_factor one_gene two_genes data n = unconditional_prior n"
  by (cases "mother data"; cases "father data") (auto simp: gene_factor_def)

lemma get_number_other:
  "k \<noteq> y \<Longrightarrow> get_number_of_genes_by_name k (insert y one_gene) two_genes =
     get_number_of_genes_by_name k one_gene two_genes"
  "k \<noteq> y \<Longrightarrow> get_number_of_genes_by_name k one_gene (insert y two_genes) =
     get_number_of_genes_by_name k one_gene two_genes"
  by (simp_all add: get_number_of_genes_by_name_def)

lemma get_number_self:
  assumes "y \<notin> one_gene" "y \<notin> two_genes"
  shows "get_number_of_genes_by_name y one_gene two_genes = 0"
    "get_number_of_genes_by_name y (insert y one_gene) two_genes = 1"
    "get_number_of_genes_by_name y one_gene (insert y two_genes) = 2"
  using assms by (simp_all add: get_number_of_genes_by_name_def)

lemma gene_factor_other:
  assumes "(k, data) \<in> set people" "(k, y) \<notin> parent_rel people"
  shows "gene_factor (insert y one_gene) two_genes data n = gene_factor one_gene two_genes data n"
    "gene_factor one_gene (insert y two_genes) data n = gene_factor one_gene two_genes data n"
proof -
  have "m \<noteq> y \<and> f \<noteq> y"
    if "mother data = Some m" "father data = Some f" "m \<noteq> []" "f \<noteq> []" for m f
    using assms that unfolding parent_rel_def by blast
  then show "gene_factor (insert y one_gene) two_genes data n =
             gene_factor one_gene two_genes data n"
    "gene_factor one_gene (insert y two_genes) data n = gene_factor one_gene two_genes data n"
    by (auto simp: gene_factor_def get_number_other split: option.splits)
qed

lemma gene_weight_other:
  assumes "k \<noteq> y" "(k, y) \<notin> parent_rel people"
  shows "gene_weight people (insert y one_gene) two_genes k = gene_weight people one_gene two_genes k"
    "gene_weight people one_gene (insert y two_genes) k = gene_weight people one_gene two_genes k"
  using assms gene_factor_other[of k _ people y]
  by (auto simp: gene_weight_def get_number_other split: option.splits dest: map_of_SomeD)

lemma gene_weight_self_sum:
  assumes "y \<in> fst ` set people" "(y, y) \<notin> parent_rel people" "y \<notin> one_gene" "y \<notin> two_genes"
  shows "gene_weight people one_gene two_genes y + gene_weight people (insert y one_gene) two_genes y +
         gene_weight people one_gene (insert y two_genes) y = 1"
proof -
  from assms(1) obtain data where d: "map_of people y = Some data"
    by (cases "map_of people y") (auto simp: map_of_eq_None_iff)
  then have "(y, data) \<in> set people" by (rule map_of_SomeD)
  from gene_factor_other[OF this assms(2)] gene_factor_sum_one[of one_gene two_genes data]
  show ?thesis
    by (simp add: gene_weight_def d get_number_self[OF assms(3,4)])
qed

lemma parent_rel_finite: "finite (parent_rel people)"
proof -
  have "parent_rel people \<subseteq>
        (\<lambda>(c, d). (c, the (mother d))) ` set people \<union> (\<lambda>(c, d). (c, the (father d))) ` set people"
    by (force simp: parent_rel_def)
  then show ?thesis by (rule finite_subset) simp
qed

lemma sink_exists:
  assumes "acyclic (parent_rel people)" "Q \<noteq> {}"
  shows "\<exists>y\<in>Q. \<forall>c\<in>Q. (c, y) \<notin> parent_rel people"
proof -
  have "wf (parent_rel people)"
    using parent_rel_finite assms(1) by (rule finite_acyclic_wf)
  moreover from assms(2) obtain q where "q \<in> Q" by blast
  ultimately obtain y where "y \<in> Q" "\<And>c. (c, y) \<in> parent_rel people \<Longrightarrow> c \<notin> Q"
    by (rule wfE_min) blast
  then show ?thesis by blast
qed

lemma root_weight_single:
  assumes "map_of people x = Some data" "\<not> (truthy (mother data) \<and> truthy (father data))"
    and "c \<le> 2"
  shows "gsum {x} (root_weight people x c {x}) = unconditional_prior c"
proof -
  from assms(3) consider "c = 0" | "c = 1" | "c = 2" by linarith
  then show ?thesis
    by cases
      (simp_all add: gsum_insert[of "{}" x] gsum_empty root_weight_def gene_weight_def assms(1)
        gene_factor_root[OF assms(2)] get_number_of_genes_by_name_def)
qed

lemma root_weight_step:
  assumes fin: "finite L'" and y: "y \<notin> L'" "y \<in> fst ` set people" "x \<noteq> y"
    and sink: "\<forall>k\<in>insert y L'. (k, y) \<notin> parent_rel people"
  shows "gsum (insert y L') (root_weight people x c (insert y L')) =
         gsum L' (root_weight people x c L')"
proof -
  have "gsum (insert y L') (root_weight people x c (insert y L')) =
        gsum L' (\<lambda>one_gene two_genes.
          root_weight people x c (insert y L') one_gene two_genes +
          root_weight people x c (insert y L') (insert y one_gene) two_genes +
          root_weight people x c (insert y L') one_gene (insert y two_genes))"
    by (rule gsum_insert[OF fin y(1)])
  also have "\<dots> = gsum L' (root_weight people x c L')"
  proof (rule gsum_cong)
    fix one_gene two_genes assume sub: "one_gene \<subseteq> L'" "two_genes \<subseteq> L' - one_gene"
    with y(1) have ny: "y \<notin> one_gene" "y \<notin> two_genes" by auto
    let ?P = "\<Prod>k\<in>L'. gene_weight people one_gene two_genes k"
    have p1: "(\<Prod>k\<in>L'. gene_weight people (insert y one_gene) two_genes k) = ?P"
      using sink y(1) by (intro prod.cong refl gene_weight_other) auto
    have p2: "(\<Prod>k\<in>L'. gene_weight people one_gene (insert y two_genes) k) = ?P"
      using sink y(1) by (intro prod.cong refl gene_weight_other) auto
    have self: "gene_weight people one_gene two_genes y +
          gene_weight people (insert y one_gene) two_genes y +
          gene_weight people one_gene (insert y two_genes) y = 1"
      using sink by (intro gene_weight_self_sum y(2) ny) simp
    have "root_weight people x c (insert y L') one_gene two_genes +
          root_weight people x c (insert y L') (insert y one_gene) two_genes +
          root_weight people x c (insert y L') one_gene (insert y two_genes) =
          (if get_number_of_genes_by_name x one_gene two_genes = c
           then (gene_weight people one_gene two_genes y +
                 gene_weight people (insert y one_gene) two_genes y +
                 gene_weight people one_gene (insert y two_genes) y) * ?P else 0)"
      using fin y(1)
      by (simp add: root_weight_def get_number_other[OF y(3)] p1 p2 algebra_simps)
    also have "\<dots> = root_weight people x c L' one_gene two_genes"
      unfolding self by (simp add: root_weight_def)
    finally show "root_weight people x c (insert y L') one_gene two_genes +
          root_weight people x c (insert y L') (insert y one_gene) two_genes +
          root_weight people x c (insert y L') one_gene (insert y two_genes) =
          root_weight people x c L' one_gene two_genes" .
  qed
  finally show ?thesis .
qed

lemma root_marginal:
  assumes dist: "distinct (map fst people)"
    and acyc: "acyclic (parent_rel people)"
    and x: "(x, data) \<in> set people" "\<not> (truthy (mother data) \<and> truthy (father data))"
    and c: "c \<le> 2"
  shows "finite L \<Longrightarrow> x \<in> L \<Longrightarrow> L \<subseteq> fst ` set people \<Longrightarrow>
         gsum L (root_weight people x c L) = unconditional_prior c"
proof (induction "card L" arbitrary: L rule: less_induct)
  case less
  have mx: "map_of people x = Some data"
    using dist x(1) by (rule map_of_is_SomeI)
  have root: "(x, p) \<notin> parent_rel people" for p
  proof
    assume "(x, p) \<in> parent_rel people"
    then obtain d m f where "(x, d) \<in> set people" "mother d = Some m" "father d = Some f"
      "m \<noteq> []" "f \<noteq> []"
      unfolding parent_rel_def by blast
    moreover from this(1) have "d = data"
      using map_of_is_SomeI[OF dist] mx by fastforce
    ultimately show False using x(2) by simp
  qed
  show ?case
  proof (cases "L = {x}")
    case True
    then show ?thesis using root_weight_single[OF mx x(2) c] by simp
  next
    case False
    with less.prems(2) have "L - {x} \<noteq> {}" by auto
    from sink_exists[OF acyc this] obtain y where
      y: "y \<in> L" "y \<noteq> x" "\<forall>k\<in>L - {x}. (k, y) \<notin> parent_rel people"
      by auto
    define L' where "L' = L - {y}"
    have L: "L = insert y L'" "y \<notin> L'" "finite L'" "x \<in> L'" "L' \<subseteq> fst ` set people"
      using y(1,2) less.prems by (auto simp: L'_def)
    have "card L' < card L"
      using L(1,2,3) by simp
    from less.hyps[OF this L(3,4,5)]
    have IH: "gsum L' (root_weight people x c L') = unconditional_prior c" .
    have "\<forall>k\<in>insert y L'. (k, y) \<notin> parent_rel people"
      using y(3) root L(1) by auto
    from root_weight_step[OF L(3,2) _ _ this, of x c] y(1,2) less.prems(3) IH
    show ?thesis unfolding L(1) by auto
  qed
qed

lemma root_gene_total:
  assumes "distinct (map fst people)"
    and "\<forall>(k, data)\<in>set people. trait data = None"
    and "acyclic (parent_rel people)"
    and "(x, data) \<in> set people" "\<not> (truthy (mother data) \<and> truthy (father data))"
    and "c \<le> 2"
  shows "gene_total (tally people (enumeration people) x zero_dist) c = unconditional_prior c"
proof -
  have "x \<in> fst ` set people" using assms(4) by (auto intro: rev_image_eqI)
  from root_marginal[OF assms(1,3,4,5,6) _ this]
  have "gsum (fst ` set people) (root_weight people x c (fst ` set people)) =
        unconditional_prior c"
    by simp
  then show ?thesis
    by (simp add: gene_total_tally totals_zero marginal_gene_no_evidence[OF assms(1,2)]
        root_weight_def[abs_def])
qed

text \<open>
  \<^bold>\<open>C5.\<close>  For every pedigree (distinct keys, nobody their own ancestor) in which no person
  has an observed trait, and every person \<open>x\<close> for whom \<^verbatim>\<open>joint_probability\<close> finds no pair of
  recorded parents (in particular a person with no recorded parents), the gene-count
  distribution of \<open>x\<close> in the table \<^verbatim>\<open>main\<close> computes is the unconditional prior: 0.96 for
  count 0, 0.03 for count 1, 0.01 for count 2.
\<close>

theorem root_keeps_prior:
  assumes "distinct (map fst people)"
    and "\<forall>(k, data)\<in>set people. trait data = None"
    and "acyclic (parent_rel people)"
    and "(x, data) \<in> set people"
    and "\<not> (truthy (mother data) \<and> truthy (father data))"
  shows "\<exists>table d. main PROBS people = Inr table \<and> map_of table x = Some d \<and>
           dist_gene d 0 = Some 0.96 \<and> dist_gene d 1 = Some 0.03 \<and> dist_gene d 2 = Some 0.01"
proof -
  let ?d = "tally people (enumeration people) x zero_dist"
  have g: "gene_total ?d 0 = 0.96" "gene_total ?d 1 = 0.03" "gene_total ?d 2 = 0.01"
    using root_gene_total[OF assms, of 0] root_gene_total[OF assms, of 1]
      root_gene_total[OF assms, of 2]
    by (simp_all add: unconditional_prior_def)
  then have s: "gene_sum ?d = 1" by (simp add: gene_sum_def)
  from main_lookup[OF assms(1,4)] obtain table where
    "main PROBS people = Inr table" "map_of table x = Some (rescale ?d)"
    by blast
  moreover have "dist_gene (rescale ?d) 0 = Some 0.96" "dist_gene (rescale ?d) 1 = Some 0.03"
    "dist_gene (rescale ?d) 2 = Some 0.01"
    unfolding rescale_entries g s by simp_all
  ultimately show ?thesis by blast
qed

theorem root_keeps_prior_witness:
  "\<exists>table d. main PROBS potter_family = Inr table \<and> map_of table ''Lily'' = Some d \<and>
     dist_gene d 0 = Some 0.96 \<and> dist_gene d 1 = Some 0.03 \<and> dist_gene d 2 = Some 0.01"
proof -
  have 1: "distinct (map fst potter_family)" by (simp add: potter_family_def)
  have 2: "\<forall>(k, data)\<in>set potter_family. trait data = None" by (simp add: potter_family_def)
  have "parent_rel potter_family \<subseteq> measure (\<lambda>k. if k = ''Harry'' then 0 else 1)"
    by (auto simp: parent_rel_def potter_family_def)
  then have 3: "acyclic (parent_rel potter_family)"
    by (intro wf_acyclic wf_subset[OF wf_measure])
  have 4: "(''Lily'', \<lparr>name = ''Lily'', mother = None, father = None, trait = None\<rparr>)
           \<in> set potter_family"
    by (simp add: potter_family_def)
  from root_keeps_prior[OF 1 2 3 4] show ?thesis by simp
qed

end
